theory Spec2Isabelle
  imports Main "HOL-Library.Sublist"
begin

section \<open>Python strings\<close>

text \<open>
  A Python \<open>str\<close> is modelled as a \<open>string\<close>, one \<open>char\<close> per code point; the model
  therefore covers the code points below 256. The non-breaking space \<open>\xa0\<close> is
  \<open>CHR 0xA0\<close> and the line feed is \<open>CHR 0x0A\<close>. The operator \<open>sub in s\<close> is
  \<^const>\<open>sublist\<close>, and \<open>s.startswith(p)\<close> is \<^const>\<open>prefix\<close>.
\<close>

definition nl :: char where
  "nl = CHR 0x0A"

definition nbsp :: char where
  "nbsp = CHR 0xA0"

text \<open>The characters below 256 for which \<open>str.isspace\<close> holds; \<open>str.strip()\<close> and the
  regular-expression class \<open>\s\<close> use the same set.\<close>

definition py_isspace :: "char \<Rightarrow> bool" where
  "py_isspace c \<longleftrightarrow> c \<in> set [CHR 0x09, CHR 0x0A, CHR 0x0B, CHR 0x0C, CHR 0x0D,
     CHR 0x1C, CHR 0x1D, CHR 0x1E, CHR 0x1F, CHR 0x20, CHR 0x85, CHR 0xA0]"

text \<open>\<open>s.strip()\<close>.\<close>

definition py_strip :: "string \<Rightarrow> string" where
  "py_strip s = rev (dropWhile py_isspace (rev (dropWhile py_isspace s)))"

text \<open>\<open>find_at sub s i\<close> scans \<open>s\<close>, whose first character has index \<open>i\<close>, for the
  lowest index at which \<open>sub\<close> starts.\<close>

fun find_at :: "string \<Rightarrow> string \<Rightarrow> nat \<Rightarrow> nat option" where
  "find_at sub [] i = (if sub = [] then Some i else None)"
| "find_at sub (c # cs) i = (if prefix sub (c # cs) then Some i else find_at sub cs (Suc i))"

text \<open>\<open>s.find(sub, start)\<close> for \<open>start \<ge> 0\<close>: the lowest index at or after \<open>start\<close>, or
  \<open>-1\<close>.\<close>

definition py_find :: "string \<Rightarrow> string \<Rightarrow> nat \<Rightarrow> int" where
  "py_find s sub start =
     (if length s < start then - 1
      else case find_at sub (drop start s) start of None \<Rightarrow> - 1 | Some i \<Rightarrow> int i)"

text \<open>A slice bound as Python normalises it: a negative bound counts from the end, and
  every bound is clamped to the string.\<close>

definition py_bound :: "nat \<Rightarrow> int \<Rightarrow> nat" where
  "py_bound n i = (if i < 0 then nat (max 0 (int n + i)) else min n (nat i))"

text \<open>\<open>s[i:j]\<close>.\<close>

definition py_slice :: "string \<Rightarrow> int \<Rightarrow> int \<Rightarrow> string" where
  "py_slice s i j =
     (let a = py_bound (length s) i; b = py_bound (length s) j in take (b - a) (drop a s))"

section \<open>The marker pattern\<close>

text \<open>
  The pattern \<open>(A|F|K|HArt.|HTit.|HPt.|HDiv.|Hprec.|HCh.)\<close> is an alternation of
  fixed-length sequences of atoms. A literal atom matches its character; the
  unescaped dot matches every character except the line feed.
\<close>

datatype atom = Lit char | Dot

fun atom_matches :: "atom \<Rightarrow> char \<Rightarrow> bool" where
  "atom_matches (Lit a) c \<longleftrightarrow> c = a"
| "atom_matches Dot c \<longleftrightarrow> c \<noteq> nl"

text \<open>One alternative tried at the head of the text: the matched characters.\<close>

fun match_here :: "atom list \<Rightarrow> string \<Rightarrow> string option" where
  "match_here [] s = Some []"
| "match_here (a # as) [] = None"
| "match_here (a # as) (c # cs) =
     (if atom_matches a c then map_option ((#) c) (match_here as cs) else None)"

text \<open>The alternatives are tried in the order written; the first that matches wins.\<close>

fun match_alts :: "atom list list \<Rightarrow> string \<Rightarrow> string option" where
  "match_alts [] s = None"
| "match_alts (p # ps) s =
     (case match_here p s of Some m \<Rightarrow> Some m | None \<Rightarrow> match_alts ps s)"

text \<open>\<open>pattern.search(s)\<close>: the match at the leftmost position that has one;
  the result is \<open>group(0)\<close>.\<close>

fun re_search :: "atom list list \<Rightarrow> string \<Rightarrow> string option" where
  "re_search alts [] = match_alts alts []"
| "re_search alts (c # cs) =
     (case match_alts alts (c # cs) of Some m \<Rightarrow> Some m | None \<Rightarrow> re_search alts cs)"

definition letters_pattern :: "atom list list" where
  "letters_pattern =
     [[Lit CHR ''A''], [Lit CHR ''F''], [Lit CHR ''K''],
      map Lit ''HArt'' @ [Dot], map Lit ''HTit'' @ [Dot], map Lit ''HPt'' @ [Dot],
      map Lit ''HDiv'' @ [Dot], map Lit ''Hprec'' @ [Dot], map Lit ''HCh'' @ [Dot]]"

section \<open>Filename classification\<close>

text \<open>\<open>_parse_filestring\<close>.\<close>

definition parse_filestring :: "string \<Rightarrow> string \<times> string \<times> string" where
  "parse_filestring s =
     (let first_9_digits = take 9 s;
          letters = (case re_search letters_pattern (drop 9 s) of
                       Some m \<Rightarrow> m | None \<Rightarrow> []);
          letters_pos = (if letters \<noteq> [] then py_find s letters 9 else - 1);
          remaining_numbers =
            (if letters_pos \<noteq> - 1
             then py_slice s (letters_pos + int (length letters)) (py_find s ''.html'' 0)
             else [])
      in (first_9_digits, letters, remaining_numbers))"

text \<open>The nine marker literals that the alternatives of the pattern spell.\<close>

definition marker_literals :: "string list" where
  "marker_literals =
     [''A'', ''F'', ''K'', ''HArt.'', ''HTit.'', ''HPt.'', ''HDiv.'', ''Hprec.'', ''HCh.'']"

section \<open>Documents\<close>

text \<open>
  A parsed document is the tree BeautifulSoup builds: raw text fragments and elements
  with a tag name, an attribute dictionary and children. The soup object is itself
  the root element. The model has no comments, scripts or style sheets.
\<close>

datatype node = Text string | Elem string "(string \<times> string) list" "node list"

text \<open>\<open>tag.descendants\<close>: every node below the tag, in document order.\<close>

fun descendants :: "node \<Rightarrow> node list" where
  "descendants (Text s) = []"
| "descendants (Elem t as cs) = concat (map (\<lambda>c. c # descendants c) cs)"

fun is_tag :: "string \<Rightarrow> node \<Rightarrow> bool" where
  "is_tag name (Text s) \<longleftrightarrow> False"
| "is_tag name (Elem t as cs) \<longleftrightarrow> t = name"

text \<open>\<open>tag.find(name)\<close> and \<open>tag.find_all(name)\<close>.\<close>

definition find_tag :: "string \<Rightarrow> node \<Rightarrow> node option" where
  "find_tag name n = List.find (is_tag name) (descendants n)"

definition find_all_tag :: "string \<Rightarrow> node \<Rightarrow> node list" where
  "find_all_tag name n = filter (is_tag name) (descendants n)"

text \<open>\<open>tag.get(key)\<close>.\<close>

fun get_attr :: "string \<Rightarrow> node \<Rightarrow> string option" where
  "get_attr k (Text s) = None"
| "get_attr k (Elem t as cs) = map_of as k"

fun text_of :: "node \<Rightarrow> string list" where
  "text_of (Text s) = [s]"
| "text_of (Elem t as cs) = []"

text \<open>The text fragments below a tag, in document order.\<close>

definition all_strings :: "node \<Rightarrow> string list" where
  "all_strings n = concat (map text_of (descendants n))"

text \<open>\<open>sep.join(xs)\<close>.\<close>

fun join :: "string \<Rightarrow> string list \<Rightarrow> string" where
  "join sep [] = []"
| "join sep [x] = x"
| "join sep (x # y # ys) = x @ sep @ join sep (y # ys)"

text \<open>\<open>tag.get_text()\<close> and \<open>tag.get_text(separator='\n', strip=True)\<close>: the second
  strips every fragment and leaves out those that are then empty.\<close>

definition get_text :: "node \<Rightarrow> string" where
  "get_text n = concat (all_strings n)"

definition get_text_lines :: "node \<Rightarrow> string" where
  "get_text_lines n = join [nl] (filter (\<lambda>s. s \<noteq> []) (map py_strip (all_strings n)))"

section \<open>Fetching\<close>

datatype error = AttributeError | KeyError | IndexError | ValueError | RequestException

text \<open>What \<open>session.get\<close> followed by \<open>raise_for_status\<close> does for a URL: a response,
  whose text parses to a document, or one of the exceptions \<open>_request_util\<close>
  distinguishes.\<close>

datatype fetch_outcome =
  Response node | Timeout | ConnectionError | HTTPError | OtherRequestException

type_synonym site = "string \<Rightarrow> fetch_outcome"

text \<open>\<open>_request_util\<close>: timeouts, connection errors and HTTP errors are logged and
  become \<open>None\<close>; any other request exception is raised again.\<close>

fun request_util :: "fetch_outcome \<Rightarrow> error + node option" where
  "request_util (Response d) = Inr (Some d)"
| "request_util Timeout = Inr None"
| "request_util ConnectionError = Inr None"
| "request_util HTTPError = Inr None"
| "request_util OtherRequestException = Inl RequestException"

section \<open>Directory listings\<close>

text \<open>A table of links: its columns and its rows \<open>(label, href)\<close>. An anchor without
  an \<open>href\<close> attribute has \<open>href\<close> \<open>None\<close>.\<close>

datatype frame = Frame (columns: "string list") (rows: "(string \<times> string option) list")

text \<open>The list \<open>url_links\<close> that \<open>_get_pages\<close> collects from a document.\<close>

definition link_entries :: "node \<Rightarrow> (string \<times> string option) list" where
  "link_entries soup =
     (case find_tag ''pre'' soup of
        None \<Rightarrow> []
      | Some pre_tag \<Rightarrow>
          filter (\<lambda>r. fst r \<noteq> ''[To Parent Directory]'')
            (map (\<lambda>link. (get_text link, get_attr ''href'' link)) (find_all_tag ''a'' pre_tag)))"

text \<open>\<open>pd.json_normalize\<close> on a list of dictionaries that all have the keys \<open>label\<close>
  and \<open>href\<close>: the columns are the keys met, so the empty list gives a table without
  columns.\<close>

definition json_normalize :: "(string \<times> string option) list \<Rightarrow> frame" where
  "json_normalize url_links =
     Frame (if url_links = [] then [] else [''label'', ''href'']) url_links"

text \<open>\<open>_get_pages\<close>. Reading \<open>response.text\<close> of \<open>None\<close> raises \<open>AttributeError\<close>, and
  selecting the column \<open>label\<close> of a table that lacks it raises \<open>KeyError\<close>.\<close>

definition get_pages :: "site \<Rightarrow> string \<Rightarrow> string \<Rightarrow> error + frame" where
  "get_pages st base_url url_path =
     (case request_util (st (base_url @ url_path)) of
        Inl e \<Rightarrow> Inl e
      | Inr None \<Rightarrow> Inl AttributeError
      | Inr (Some soup) \<Rightarrow>
          (let data = json_normalize (link_entries soup)
           in if ''label'' \<in> set (columns data)
              then Inr (Frame (columns data) (filter (\<lambda>r. fst r \<noteq> ''aReadMe'') (rows data)))
              else Inl KeyError))"

section \<open>The index\<close>

text \<open>A row of \<open>df_index\<close> before classification: chapter name and URL, act name and
  URL, section file and section URL.\<close>

type_synonym section_row = "string \<times> string \<times> string \<times> string \<times> string \<times> string option"

record index_record =
  chapter_name :: string
  chapter_url :: string
  act_name :: string
  act_url :: string
  section_file :: string
  section_url :: "string option"
  ilcs_index_number :: string
  ilcs_index_type :: string
  ilcs_index_ext :: string
  ilcs_index_type_label :: string

text \<open>\<open>data.loc[data['href'] == url, 'label'].values[0]\<close>: the label of the first row
  with that href; \<open>IndexError\<close> when no row has it.\<close>

definition label_of_href :: "(string \<times> string option) list \<Rightarrow> string \<Rightarrow> error + string" where
  "label_of_href rs u =
     (case List.find (\<lambda>r. snd r = Some u) rs of
        None \<Rightarrow> Inl IndexError
      | Some r \<Rightarrow> Inr (fst r))"

text \<open>The inner loop of \<open>build_ilcs_index\<close> over the acts of one chapter; \<open>df\<close> is
  \<open>df_index\<close>. An href \<open>None\<close> compares unequal to every row, so the name lookup
  raises \<open>IndexError\<close>.\<close>

fun crawl_acts ::
  "site \<Rightarrow> string \<Rightarrow> string \<Rightarrow> string \<Rightarrow> (string \<times> string option) list
    \<Rightarrow> (string \<times> string option) list \<Rightarrow> section_row list \<Rightarrow> error + section_row list" where
  "crawl_acts st base cname curl acts [] df = Inr df"
| "crawl_acts st base cname curl acts (r # rest) df =
     (case snd r of
        None \<Rightarrow> Inl IndexError
      | Some aurl \<Rightarrow>
          (case label_of_href acts aurl of
             Inl e \<Rightarrow> Inl e
           | Inr aname \<Rightarrow>
               (case get_pages st base aurl of
                  Inl e \<Rightarrow> Inl e
                | Inr sections_data \<Rightarrow>
                    crawl_acts st base cname curl acts rest
                      (df @ map (\<lambda>s. (cname, curl, aname, aurl, fst s, snd s))
                              (rows sections_data)))))"

text \<open>The outer loop over the chapters.\<close>

fun crawl_chapters ::
  "site \<Rightarrow> string \<Rightarrow> (string \<times> string option) list
    \<Rightarrow> (string \<times> string option) list \<Rightarrow> section_row list \<Rightarrow> error + section_row list" where
  "crawl_chapters st base chapters [] df = Inr df"
| "crawl_chapters st base chapters (r # rest) df =
     (case snd r of
        None \<Rightarrow> Inl IndexError
      | Some curl \<Rightarrow>
          (case label_of_href chapters curl of
             Inl e \<Rightarrow> Inl e
           | Inr cname \<Rightarrow>
               (case get_pages st base curl of
                  Inl e \<Rightarrow> Inl e
                | Inr acts_data \<Rightarrow>
                    (case crawl_acts st base cname curl (rows acts_data) (rows acts_data) df of
                       Inl e \<Rightarrow> Inl e
                     | Inr df' \<Rightarrow> crawl_chapters st base chapters rest df'))))"

text \<open>The static mapping from the type marker to its label.\<close>

definition mapping :: "(string \<times> string) list" where
  "mapping =
     [(''A'', ''Chapter (A)''),
      (''F'', ''Act (F)''),
      (''K'', ''Section (K)''),
      (''HArt.'', ''Article (HArt)''),
      (''HPt.'', ''Part (HPt)''),
      (''HTit.'', ''Title (HTit)''),
      (''HDiv.'', ''Division (HDiv)''),
      (''HArt '', ''Article (HArtDiv)''),
      (''Hprec.'', ''Preceding Section (HprecSec)''),
      (''HArt,'', ''Article (HArt)''),
      (''HCh.'', ''Chapter (HCh)''),
      (''HCh '', ''Chapter (HChArt)'')]"

text \<open>\<open>.map(mapping).fillna('Unknown')\<close> on one value.\<close>

definition type_label :: "string \<Rightarrow> string" where
  "type_label t = (case map_of mapping t of None \<Rightarrow> ''Unknown'' | Some l \<Rightarrow> l)"

text \<open>The classification columns added to one row.\<close>

definition classify :: "section_row \<Rightarrow> index_record" where
  "classify r =
     (case r of (cname, curl, aname, aurl, sfile, surl) \<Rightarrow>
        (case parse_filestring sfile of (num, ty, ext) \<Rightarrow>
           \<lparr>chapter_name = cname, chapter_url = curl, act_name = aname, act_url = aurl,
            section_file = sfile, section_url = surl,
            ilcs_index_number = num, ilcs_index_type = ty, ilcs_index_ext = ext,
            ilcs_index_type_label = type_label ty\<rparr>))"

text \<open>\<open>build_ilcs_index\<close>. When no section row was collected, the parsed list is
  empty, the table built from it has no columns, and assigning it to the three
  classification columns raises \<open>ValueError\<close>.\<close>

definition build_ilcs_index :: "site \<Rightarrow> string \<Rightarrow> string \<Rightarrow> error + index_record list" where
  "build_ilcs_index st base_url root_path =
     (case get_pages st base_url root_path of
        Inl e \<Rightarrow> Inl e
      | Inr chapters_data \<Rightarrow>
          (case crawl_chapters st base_url (rows chapters_data) (rows chapters_data) [] of
             Inl e \<Rightarrow> Inl e
           | Inr df \<Rightarrow> if df = [] then Inl ValueError else Inr (map classify df)))"

subsection \<open>A small site\<close>

text \<open>A listing page with the given links, and a site with one root listing, two
  chapters and one act in each; the fetch of the first chapter is a parameter.\<close>

definition listing_page :: "(string \<times> string) list \<Rightarrow> node" where
  "listing_page links =
     Elem ''[document]'' []
       [Elem ''pre'' [] (map (\<lambda>l. Elem ''a'' [(''href'', snd l)] [Text (fst l)]) links)]"

definition demo_site :: "fetch_outcome \<Rightarrow> string \<Rightarrow> site" where
  "demo_site first_chapter file url =
     (if url = ''https://ilga.gov/ftp/ILCS/''
      then Response (listing_page
             [(''[To Parent Directory]'', ''/ftp/''), (''aReadMe'', ''/ftp/ILCS/aReadMe''),
              (''Ch 0005'', ''/ftp/ILCS/Ch5/''), (''Ch 0010'', ''/ftp/ILCS/Ch10/'')])
      else if url = ''https://ilga.gov/ftp/ILCS/Ch5/'' then first_chapter
      else if url = ''https://ilga.gov/ftp/ILCS/Ch10/''
      then Response (listing_page
             [(''[To Parent Directory]'', ''/ftp/ILCS/''), (''Act 0005'', ''/ftp/ILCS/Ch10/A5/'')])
      else if url = ''https://ilga.gov/ftp/ILCS/Ch5/A5/''
      then Response (listing_page
             [(''[To Parent Directory]'', ''/ftp/ILCS/Ch5/''), (file, ''/ftp/ILCS/Ch5/A5/f.html'')])
      else if url = ''https://ilga.gov/ftp/ILCS/Ch10/A5/''
      then Response (listing_page
             [(''[To Parent Directory]'', ''/ftp/ILCS/Ch10/''),
              (''001000050K1.html'', ''/ftp/ILCS/Ch10/A5/001000050K1.html'')])
      else HTTPError)"

definition first_chapter_page :: node where
  "first_chapter_page =
     listing_page [(''[To Parent Directory]'', ''/ftp/ILCS/''), (''Act 0005'', ''/ftp/ILCS/Ch5/A5/'')]"

definition parent_only_page :: node where
  "parent_only_page = listing_page [(''[To Parent Directory]'', ''/ftp/ILCS/'')]"

subsection \<open>The listings a crawl asks for\<close>

text \<open>The rows of the listing at a path (none when the listing cannot be had), the
  hrefs present in rows, and the paths of the three levels: the root, the chapters
  listed at the root, and the acts listed in those chapters.\<close>

definition listing_rows :: "site \<Rightarrow> string \<Rightarrow> string \<Rightarrow> (string \<times> string option) list" where
  "listing_rows st base p = (case get_pages st base p of Inl e \<Rightarrow> [] | Inr f \<Rightarrow> rows f)"

definition hrefs :: "(string \<times> string option) list \<Rightarrow> string list" where
  "hrefs rs = concat (map (\<lambda>r. case snd r of None \<Rightarrow> [] | Some u \<Rightarrow> [u]) rs)"

definition crawled_paths :: "site \<Rightarrow> string \<Rightarrow> string \<Rightarrow> string list" where
  "crawled_paths st base root =
     root # hrefs (listing_rows st base root)
       @ concat (map (\<lambda>c. hrefs (listing_rows st base c)) (hrefs (listing_rows st base root)))"

text \<open>The rows the crawl collects on the small site when the section file of the
  first chapter is \<open>0005.html\<close>.\<close>

definition demo_rows :: "section_row list" where
  "demo_rows =
     [(''Ch 0005'', ''/ftp/ILCS/Ch5/'', ''Act 0005'', ''/ftp/ILCS/Ch5/A5/'',
       ''0005.html'', Some ''/ftp/ILCS/Ch5/A5/f.html''),
      (''Ch 0010'', ''/ftp/ILCS/Ch10/'', ''Act 0005'', ''/ftp/ILCS/Ch10/A5/'',
       ''001000050K1.html'', Some ''/ftp/ILCS/Ch10/A5/001000050K1.html'')]"

section \<open>Act pages\<close>

text \<open>\<open>s.split(sep, 1)[1]\<close>, the text after the first occurrence of \<open>sep\<close>, when there is
  one; and \<open>s.split(sep)[0]\<close>, the text before the first occurrence, all of \<open>s\<close> when
  there is none.\<close>

fun after_first :: "string \<Rightarrow> string \<Rightarrow> string option" where
  "after_first sep [] = (if sep = [] then Some [] else None)"
| "after_first sep (c # cs) =
     (if prefix sep (c # cs) then Some (drop (length sep) (c # cs)) else after_first sep cs)"

fun before_first :: "string \<Rightarrow> string \<Rightarrow> string" where
  "before_first sep [] = []"
| "before_first sep (c # cs) = (if prefix sep (c # cs) then [] else c # before_first sep cs)"

text \<open>\<open>s.split()\<close>: the maximal runs of characters that are not whitespace; \<open>cur\<close> is
  the run being read, reversed.\<close>

fun split_ws :: "string \<Rightarrow> string \<Rightarrow> string list" where
  "split_ws cur [] = (if cur = [] then [] else [rev cur])"
| "split_ws cur (c # cs) =
     (if py_isspace c
      then (if cur = [] then split_ws [] cs else rev cur # split_ws [] cs)
      else split_ws (c # cur) cs)"

text \<open>The lazy group \<open>(.*?)\)\<close> read from the head of \<open>s\<close> when nothing that can fail
  follows it: the characters up to the first closing parenthesis, which must come
  before any line feed; the result is the group and the text after the parenthesis.\<close>

definition paren_group :: "string \<Rightarrow> (string \<times> string) option" where
  "paren_group s =
     (let g = takeWhile (\<lambda>c. c \<noteq> CHR '')'' \<and> c \<noteq> nl) s
      in case drop (length g) s of
           [] \<Rightarrow> None
         | c # r \<Rightarrow> if c = CHR '')'' then Some (g, r) else None)"

text \<open>\<open>re.search(r'^\((.*?)\)', text)\<close>, group 1.\<close>

definition ilcs_code_match :: "string \<Rightarrow> string option" where
  "ilcs_code_match t =
     (case t of
        [] \<Rightarrow> None
      | c # r \<Rightarrow> if c = CHR ''(''  then map_option fst (paren_group r) else None)"

text \<open>The tail \<open>\s*\((.*?)\)\<close> of the title pattern, read right after the closing
  parenthesis of the first group: all the whitespace, an opening parenthesis, and the
  second group.\<close>

definition second_group :: "string \<Rightarrow> string option" where
  "second_group s =
     (case dropWhile py_isspace s of
        [] \<Rightarrow> None
      | c # r \<Rightarrow> if c = CHR ''('' then map_option fst (paren_group r) else None)"

text \<open>The first group of the title pattern is lazy and is followed by the tail: it
  ends at the first closing parenthesis after which the tail matches, and it cannot
  run over a line feed.\<close>

fun first_group_then :: "string \<Rightarrow> string option" where
  "first_group_then [] = None"
| "first_group_then (c # cs) =
     (if c = nl then None
      else if c = CHR '')''
      then (case second_group cs of Some g \<Rightarrow> Some g | None \<Rightarrow> first_group_then cs)
      else first_group_then cs)"

text \<open>\<open>re.search(r'\((.*?)\)\s*\((.*?)\)', text)\<close>, group 2: the leftmost opening
  parenthesis from which the pattern matches.\<close>

fun act_title_match :: "string \<Rightarrow> string option" where
  "act_title_match [] = None"
| "act_title_match (c # cs) =
     (if c = CHR ''(''
      then (case first_group_then cs of Some g \<Rightarrow> Some g | None \<Rightarrow> act_title_match cs)
      else act_title_match cs)"

text \<open>\<open>re.search(r'Title:\s*(.*)', text, re.DOTALL)\<close>, group 1: everything after the
  label and the whitespace that follows it.\<close>

definition title_desc_match :: "string \<Rightarrow> string option" where
  "title_desc_match t = map_option (dropWhile py_isspace) (after_first ''Title:'' t)"

text \<open>\<open>re.search(label + r'\s*(.*)', text)\<close>, group 1: after the label and the
  whitespace that follows it, the rest of the line.\<close>

definition label_match :: "string \<Rightarrow> string \<Rightarrow> string option" where
  "label_match label t =
     map_option (\<lambda>r. takeWhile (\<lambda>c. c \<noteq> nl) (dropWhile py_isspace r)) (after_first label t)"

text \<open>\<open>soup.find('div', align='justify')\<close>.\<close>

definition is_justified_div :: "node \<Rightarrow> bool" where
  "is_justified_div n \<longleftrightarrow> is_tag ''div'' n \<and> get_attr ''align'' n = Some ''justify''"

definition find_justified_div :: "node \<Rightarrow> node option" where
  "find_justified_div soup = List.find is_justified_div (descendants soup)"

text \<open>The dictionary \<open>data\<close>, in insertion order; a value is \<open>None\<close> or a string. The
  table returned is built from this one dictionary: its columns are the keys, so a
  key the dictionary lacks is a column the table lacks (\<open>map_of d k = None\<close>), and a
  null field is a key with the value \<open>None\<close> (\<open>map_of d k = Some None\<close>).\<close>

type_synonym act_data = "(string \<times> string option) list"

definition act_fields :: "string \<Rightarrow> act_data" where
  "act_fields full_text =
     [(''ilcs_code'', ilcs_code_match full_text),
      (''ilcs_act_title'', act_title_match full_text),
      (''title_description'',
         map_option (\<lambda>g. join '' '' (split_ws [] (py_strip (before_first ''Cite:'' g))))
           (title_desc_match full_text)),
      (''cite'', map_option py_strip (label_match ''Cite:'' full_text)),
      (''source'', map_option py_strip (label_match ''Source:'' full_text)),
      (''short_title'', map_option py_strip (label_match ''Short title:'' full_text))]"

definition act_data_of :: "node \<Rightarrow> act_data" where
  "act_data_of soup =
     (case find_justified_div soup of
        None \<Rightarrow> []
      | Some container \<Rightarrow> act_fields (get_text_lines container))"

text \<open>\<open>parse_act_page\<close>: one record, the dictionary \<open>data\<close>.\<close>

definition parse_act_page :: "site \<Rightarrow> string \<Rightarrow> string \<Rightarrow> error + act_data" where
  "parse_act_page st base_url url_path =
     (case request_util (st (base_url @ url_path)) of
        Inl e \<Rightarrow> Inl e
      | Inr None \<Rightarrow> Inl AttributeError
      | Inr (Some soup) \<Rightarrow> Inr (act_data_of soup))"

text \<open>The six keys that \<open>parse_act_page\<close> sets when it finds the container.\<close>

definition act_field_names :: "string list" where
  "act_field_names =
     [''ilcs_code'', ''ilcs_act_title'', ''title_description'', ''cite'', ''source'', ''short_title'']"

text \<open>Two act pages: one whose justified container has a code, a title and a cite
  line only, and one without the container.\<close>

definition demo_act_page :: node where
  "demo_act_page =
     Elem ''[document]'' []
       [Elem ''body'' []
          [Elem ''div'' [(''align'', ''justify'')]
             [Elem ''p'' [] [Text ''  (35 ILCS 200/) (from Ch. 120, par. 1-1) '', Elem ''br'' [] []],
              Text [nl],
              Elem ''p'' [] [Text ''Cite: 35 ILCS 200 '']]]]"

definition demo_plain_page :: node where
  "demo_plain_page = Elem ''[document]'' [] [Elem ''body'' [] [Elem ''div'' [] [Text ''moved'']]]"

definition demo_act_site :: site where
  "demo_act_site url =
     (if url = ''https://ilga.gov/ftp/ILCS/Ch5/A5/000500050F.html'' then Response demo_act_page
      else if url = ''https://ilga.gov/ftp/ILCS/Ch5/A5/moved.html'' then Response demo_plain_page
      else Timeout)"

section \<open>Statute pages\<close>

text \<open>\<open>s.split('\n')\<close>, for any single separator character.\<close>

fun split_char :: "char \<Rightarrow> string \<Rightarrow> string list" where
  "split_char d [] = [[]]"
| "split_char d (c # cs) =
     (if c = d then [] # split_char d cs
      else (case split_char d cs of [] \<Rightarrow> [[c]] | x # xs \<Rightarrow> (c # x) # xs))"

definition amendment_marker :: string where
  "amendment_marker = ''Text of Section after amendment''"

text \<open>
  \<open>soup.find(string=re.compile(re.escape(line)))\<close> returns the first text fragment of
  the document, in document order, in which the escaped line is found, that is, which
  contains the line. \<open>find_ctx line psibs earlier nodes\<close> looks for it in \<open>nodes\<close>, the
  children of one element not yet visited, where \<open>earlier\<close> are the children already
  visited and \<open>psibs\<close> are the previous siblings of that element, both nearest first.
  The result is the pair of the previous siblings of the fragment itself and the
  previous siblings of its parent, \<open>original_element.parent.previous_siblings\<close>.
\<close>

fun find_ctx :: "string \<Rightarrow> node list \<Rightarrow> node list \<Rightarrow> node list \<Rightarrow> (node list \<times> node list) option" where
  "find_ctx line psibs earlier [] = None"
| "find_ctx line psibs earlier (Text s # rest) =
     (if sublist line s then Some (earlier, psibs)
      else find_ctx line psibs (Text s # earlier) rest)"
| "find_ctx line psibs earlier (Elem t as cs # rest) =
     (case find_ctx line earlier [] cs of
        Some r \<Rightarrow> Some r
      | None \<Rightarrow> find_ctx line psibs (Elem t as cs # earlier) rest)"

text \<open>The search from the soup object, which has no siblings.\<close>

fun find_string :: "node \<Rightarrow> string \<Rightarrow> (node list \<times> node list) option" where
  "find_string (Text s) line = None"
| "find_string (Elem t as cs) line = find_ctx line [] [] cs"

text \<open>The loop over \<open>previous_siblings\<close>: a text fragment is put in front of what was
  gathered from the nearer siblings, and the first element ends the loop.\<close>

fun leading_whitespace :: "node list \<Rightarrow> string" where
  "leading_whitespace [] = []"
| "leading_whitespace (Text s # sibs) = leading_whitespace sibs @ s"
| "leading_whitespace (Elem t as cs # sibs) = []"

text \<open>\<open>w.replace('\xa0', ' ').count(' ')\<close>.\<close>

definition count_spaces :: "string \<Rightarrow> nat" where
  "count_spaces w =
     length (filter (\<lambda>c. c = CHR '' '') (map (\<lambda>c. if c = nbsp then CHR '' '' else c) w))"

text \<open>The number of spaces put before a body line, from the previous siblings of the
  parent of the fragment found; and the entry appended to \<open>statute_text_lines\<close> for a
  body line.\<close>

definition indent_spaces :: "node \<Rightarrow> string \<Rightarrow> nat" where
  "indent_spaces soup line =
     (case find_string soup line of
        None \<Rightarrow> 0
      | Some (own, psibs) \<Rightarrow> count_spaces (leading_whitespace psibs))"

definition render_line :: "node \<Rightarrow> string \<Rightarrow> string" where
  "render_line soup line =
     (case find_string soup line of
        None \<Rightarrow> line
      | Some (own, psibs) \<Rightarrow> replicate (count_spaces (leading_whitespace psibs)) CHR '' '' @ line)"

text \<open>The variables of the loop over the lines.\<close>

record scan_state =
  sec_number :: "string option"
  src_line :: "string option"
  found_section :: bool
  found_statute_text :: bool
  statute_text_lines :: "string list"

definition init_state :: scan_state where
  "init_state =
     \<lparr>sec_number = None, src_line = None, found_section = False, found_statute_text = False,
      statute_text_lines = []\<rparr>"

text \<open>The section number taken from a line that starts with \<open>Sec.\<close>: the text after
  the first dot, stripped; the whole line when it has no dot.\<close>

definition section_number_of :: "string \<Rightarrow> string" where
  "section_number_of line =
     (case after_first ''.'' line of Some r \<Rightarrow> py_strip r | None \<Rightarrow> line)"

text \<open>The body of the loop over the lines, for one line; \<open>ind\<close> turns a body line
  into the entry appended for it. Each \<open>continue\<close> of the source ends a branch.\<close>

definition scan_step :: "(string \<Rightarrow> string) \<Rightarrow> scan_state \<Rightarrow> string \<Rightarrow> scan_state" where
  "scan_step ind st raw =
     (let line = py_strip raw in
      if line = [] then st
      else if prefix ''Sec.'' line \<and> \<not> found_section st
      then st\<lparr>sec_number := Some (section_number_of line),
              found_section := True, found_statute_text := True\<rparr>
      else if prefix ''(Source:'' line
      then st\<lparr>src_line := Some line, found_statute_text := False\<rparr>
      else if found_statute_text st
      then st\<lparr>statute_text_lines := statute_text_lines st @ [ind line]\<rparr>
      else st)"

text \<open>The loop.\<close>

definition scan_lines :: "(string \<Rightarrow> string) \<Rightarrow> string list \<Rightarrow> scan_state \<Rightarrow> scan_state" where
  "scan_lines ind ls st = foldl (scan_step ind) st ls"

text \<open>The record returned, without the field \<open>ilcs_code\<close>, on which nothing else in
  the function depends.\<close>

record statute_record =
  section_number :: "string option"
  statute_text :: string
  source :: "string option"
  amended_statute :: bool

text \<open>The text the lines are taken from: what follows the first amendment marker
  when there is one.\<close>

definition processed_text :: "string \<Rightarrow> string" where
  "processed_text all_text =
     (if sublist amendment_marker all_text
      then (case after_first amendment_marker all_text of Some r \<Rightarrow> r | None \<Rightarrow> all_text)
      else all_text)"

definition statute_of :: "node \<Rightarrow> node \<Rightarrow> statute_record" where
  "statute_of soup body =
     (let all_text = get_text_lines body;
          st = scan_lines (render_line soup) (split_char nl (processed_text all_text)) init_state
      in \<lparr>section_number = sec_number st,
          statute_text = py_strip (join [nl] (statute_text_lines st)),
          source = src_line st,
          amended_statute = sublist amendment_marker all_text\<rparr>)"

text \<open>\<open>parse_statute_page\<close>. \<open>soup.body\<close> is \<open>None\<close> for a document without a \<open>body\<close>
  element, and \<open>get_text\<close> of it raises \<open>AttributeError\<close>.\<close>

definition parse_statute_page :: "site \<Rightarrow> string \<Rightarrow> string \<Rightarrow> error + statute_record" where
  "parse_statute_page st base_url url_path =
     (case request_util (st (base_url @ url_path)) of
        Inl e \<Rightarrow> Inl e
      | Inr None \<Rightarrow> Inl AttributeError
      | Inr (Some soup) \<Rightarrow>
          (case find_tag ''body'' soup of
             None \<Rightarrow> Inl AttributeError
           | Some body \<Rightarrow> Inr (statute_of soup body)))"

subsection \<open>Notions used to state the properties\<close>

text \<open>A line as the loop handles it: not empty, with no whitespace at either end.\<close>

definition clean :: "string \<Rightarrow> bool" where
  "clean l \<longleftrightarrow> l \<noteq> [] \<and> \<not> py_isspace (hd l) \<and> \<not> py_isspace (last l)"

text \<open>The lines of a text that the loop does not skip, stripped.\<close>

definition stmt_lines :: "string \<Rightarrow> string list" where
  "stmt_lines t = filter (\<lambda>l. l \<noteq> []) (map py_strip (split_char nl t))"

text \<open>The body lines the loop captures from the flattened body text, as they are
  before indentation.\<close>

definition captured_lines :: "string \<Rightarrow> string list" where
  "captured_lines all_text =
     statute_text_lines (scan_lines (\<lambda>l. l) (split_char nl (processed_text all_text)) init_state)"

text \<open>A state whose captured entries are each passed through \<open>f\<close>.\<close>

definition map_lines :: "(string \<Rightarrow> string) \<Rightarrow> scan_state \<Rightarrow> scan_state" where
  "map_lines f st = st\<lparr>statute_text_lines := map f (statute_text_lines st)\<rparr>"

text \<open>Raw text fragments, as opposed to elements.\<close>

fun is_text :: "node \<Rightarrow> bool" where
  "is_text (Text s) \<longleftrightarrow> True"
| "is_text (Elem t as cs) \<longleftrightarrow> False"

text \<open>The count of spaces as the specification words it: taken from the previous
  siblings of the text fragment found, not from those of its parent.\<close>

definition own_indent_spaces :: "node \<Rightarrow> string \<Rightarrow> nat" where
  "own_indent_spaces soup line =
     (case find_string soup line of
        None \<Rightarrow> 0
      | Some (own, psibs) \<Rightarrow> count_spaces (leading_whitespace own))"

subsection \<open>Some statute pages\<close>

text \<open>A page around a body; a body with two indented lines; a body with two versions
  of a section, each with its source line; and two bodies with the same text after
  the amendment marker, one of which has the line \<open>Shared line\<close> before the marker
  as well, indented there.\<close>

definition statute_page :: "node list \<Rightarrow> node" where
  "statute_page ns =
     Elem ''[document]'' []
       [Elem ''html'' []
          [Elem ''head'' [] [Elem ''title'' [] [Text ''Illinois Compiled Statutes'']],
           Elem ''body'' [] ns]]"

definition indented_body :: "node list" where
  "indented_body =
     [Elem ''p'' [] [Text ''Sec. 1. Short title.''],
      Text [nl, nbsp, nbsp], Elem ''span'' [] [Text ''First''], Elem ''br'' [] [],
      Text [nl, nbsp, nbsp], Elem ''span'' [] [Text ''Second''], Elem ''br'' [] [],
      Text [nl], Elem ''p'' [] [Text ''(Source: P.A. 90-655, eff. 7-30-98.)'']]"

definition two_version_body :: "node list" where
  "two_version_body =
     [Elem ''p'' [] [Text ''(Text of Section from P.A. 103-1)''],
      Elem ''p'' [] [Text ''Sec. 1. Short title.''],
      Elem ''p'' [] [Text ''This Act may be cited as the First Act.''],
      Elem ''p'' [] [Text ''(Source: P.A. 103-1, eff. 1-1-24.)''],
      Elem ''p'' [] [Text ''(Text of Section from P.A. 103-2)''],
      Elem ''p'' [] [Text ''Sec. 1. Short title.''],
      Elem ''p'' [] [Text ''This Act may be cited as the Second Act.''],
      Elem ''p'' [] [Text ''(Source: P.A. 103-2, eff. 1-1-24.)'']]"

definition amended_tail :: "node list" where
  "amended_tail =
     [Elem ''p'' [] [Text ''Text of Section after amendment''],
      Elem ''p'' [] [Text ''Sec. 1. Short title.''],
      Elem ''p'' [] [Text ''First''],
      Elem ''p'' [] [Text ''Shared line''],
      Elem ''p'' [] [Text ''(Source: P.A. 99-1.)'']]"

definition amended_body_indented :: "node list" where
  "amended_body_indented =
     [Elem ''p'' [] [Text ''Text of Section before amendment''],
      Text [nl, nbsp, nbsp], Elem ''span'' [] [Text ''Shared line''], Elem ''br'' [] []]
     @ amended_tail"

definition amended_body_plain :: "node list" where
  "amended_body_plain = [Elem ''p'' [] [Text ''Text of Section before amendment'']] @ amended_tail"

definition demo_statute_site :: site where
  "demo_statute_site url =
     (if url = ''https://ilga.gov/s/indented.html'' then Response (statute_page indented_body)
      else if url = ''https://ilga.gov/s/versions.html'' then Response (statute_page two_version_body)
      else if url = ''https://ilga.gov/s/amended1.html'' then Response (statute_page amended_body_indented)
      else if url = ''https://ilga.gov/s/amended2.html'' then Response (statute_page amended_body_plain)
      else Timeout)"

section \<open>Properties of the filename classifier\<close>

lemma re_search_marker_literal:
  assumes "m \<in> set marker_literals"
  shows "re_search letters_pattern (m @ rest) = Some m"
  using assms by (auto simp add: marker_literals_def letters_pattern_def nl_def)

lemma marker_literal_nonempty: "m \<in> set marker_literals \<Longrightarrow> m \<noteq> []"
  by (auto simp add: marker_literals_def)

lemma find_at_prefix: "sub \<noteq> [] \<Longrightarrow> find_at sub (sub @ rest) i = Some i"
  by (cases sub) simp_all

lemma py_find_at_offset:
  assumes "sub \<noteq> []"
  shows "py_find (pre @ sub @ rest) sub (length pre) = int (length pre)"
  using assms by (simp add: py_find_def find_at_prefix)

text \<open>No occurrence of \<open>.html\<close> can start inside a text and run over into a following
  \<open>.html\<close>: it would put a letter where the second dot is.\<close>

lemma html_not_prefix_overlap:
  assumes "\<not> sublist ''.html'' (c # cs)"
  shows "\<not> prefix ''.html'' ((c # cs) @ ''.html'')"
proof
  assume p: "prefix ''.html'' ((c # cs) @ ''.html'')"
  then consider "prefix ''.html'' (c # cs)"
    | us where "''.html'' = (c # cs) @ us" "prefix us ''.html''"
    unfolding prefix_append by blast
  then show False
  proof cases
    case 1
    then have "sublist ''.html'' (c # cs)" by (rule prefix_imp_sublist)
    with assms show False by simp
  next
    case 2
    then show False using assms
      by (auto simp add: Cons_eq_append_conv append_eq_Cons_conv prefix_Cons)
  qed
qed

lemma find_at_html_suffix:
  "\<not> sublist ''.html'' pre \<Longrightarrow> find_at ''.html'' (pre @ ''.html'') i = Some (i + length pre)"
proof (induction pre arbitrary: i)
  case Nil
  then show ?case by simp
next
  case (Cons c cs)
  have np: "\<not> prefix ''.html'' ((c # cs) @ ''.html'')"
    using Cons.prems by (rule html_not_prefix_overlap)
  have ns: "\<not> sublist ''.html'' cs"
    using Cons.prems by (simp add: sublist_Cons_right)
  have "find_at ''.html'' ((c # cs) @ ''.html'') i = find_at ''.html'' (cs @ ''.html'') (Suc i)"
    using np by (simp only: append_Cons find_at.simps if_False)
  also have "\<dots> = Some (Suc i + length cs)" using ns by (rule Cons.IH)
  finally show ?case by simp
qed

lemma py_find_html_suffix:
  "\<not> sublist ''.html'' pre \<Longrightarrow> py_find (pre @ ''.html'') ''.html'' 0 = int (length pre)"
  by (simp add: py_find_def find_at_html_suffix)

lemma py_slice_middle:
  "py_slice (pre @ mid @ post) (int (length pre)) (int (length pre + length mid)) = mid"
  by (simp add: py_slice_def py_bound_def)

text \<open>
  C1 (as amended). For a filename \<open>code + marker + residual + ".html"\<close> with a code of
  exactly 9 characters, a marker that is one of the nine literals, and no \<open>.html\<close>
  anywhere inside \<open>code + marker + residual\<close>, \<open>_parse_filestring\<close> returns exactly
  \<open>(code, marker, residual)\<close>. The residual may contain marker literals.
\<close>

theorem parse_filestring_wellformed:
  assumes len: "length code = 9"
    and mk: "marker \<in> set marker_literals"
    and nh: "\<not> sublist ''.html'' (code @ marker @ residual)"
  shows "parse_filestring (code @ marker @ residual @ ''.html'') = (code, marker, residual)"
proof -
  let ?s = "code @ marker @ residual @ ''.html''"
  have ne: "marker \<noteq> []" using mk by (rule marker_literal_nonempty)
  have letters: "re_search letters_pattern (drop 9 ?s) = Some marker"
    using len re_search_marker_literal [OF mk] by simp
  have pos: "py_find ?s marker 9 = 9"
    using py_find_at_offset [OF ne, of code "residual @ ''.html''"] len by simp
  have endp: "py_find ?s ''.html'' 0 = int (length (code @ marker @ residual))"
    using py_find_html_suffix [OF nh] by simp
  have sl: "py_slice ?s (9 + int (length marker)) (py_find ?s ''.html'' 0) = residual"
    using py_slice_middle [of "code @ marker" residual "''.html''"] len
    by (simp add: endp add.assoc)
  show ?thesis
    using ne len sl pos letters by (simp add: parse_filestring_def)
qed

text \<open>The theorem at the filename \<open>005000050K50010.html\<close> of the specification.\<close>

theorem parse_filestring_wellformed_witness:
  "length ''005000050'' = 9 \<and> ''K'' \<in> set marker_literals
   \<and> \<not> sublist ''.html'' (''005000050'' @ ''K'' @ ''50010'')
   \<and> parse_filestring ''005000050K50010.html'' = (''005000050'', ''K'', ''50010'')"
proof -
  have a: "length ''005000050'' = 9" by simp
  have b: "''K'' \<in> set marker_literals" by (simp add: marker_literals_def)
  have c: "\<not> sublist ''.html'' (''005000050'' @ ''K'' @ ''50010'')" by code_simp
  show ?thesis using a b c parse_filestring_wellformed [OF a b c] by simp
qed

text \<open>
  C1 as stated fails: the end of the residual is the first \<open>.html\<close> of the whole
  filename. With the marker \<open>HArt.\<close> and the residual \<open>html5\<close>, which holds no marker
  literal and no \<open>.html\<close>, that first \<open>.html\<close> starts at the marker's dot, before the
  residual starts, and the residual returned is empty.
\<close>

theorem parse_filestring_early_html:
  "length ''000000000'' = 9 \<and> ''HArt.'' \<in> set marker_literals
   \<and> \<not> sublist ''.html'' ''html5''
   \<and> list_all (\<lambda>m. \<not> sublist m ''html5'') marker_literals
   \<and> parse_filestring (''000000000'' @ ''HArt.'' @ ''html5'' @ ''.html'')
       = (''000000000'', ''HArt.'', [])
   \<and> parse_filestring (''000000000'' @ ''HArt.'' @ ''html5'' @ ''.html'')
       \<noteq> (''000000000'', ''HArt.'', ''html5'')"
  by code_simp

text \<open>
  C6. The claim is that a filename with a marker at or after offset 9 and without
  \<open>.html\<close> has an empty residual. In \<open>_parse_filestring\<close> the \<open>-1\<close> that \<open>find\<close>
  returns for the missing \<open>.html\<close> is used as the end of the slice, which then stops
  one character before the end of the filename: \<open>005000050K50010\<close> gives the residual
  \<open>5001\<close>.
\<close>

theorem parse_filestring_without_html:
  "\<not> sublist ''.html'' ''005000050K50010''
   \<and> py_find ''005000050K50010'' ''.html'' 0 = - 1
   \<and> parse_filestring ''005000050K50010'' = (''005000050'', ''K'', ''5001'')"
  by code_simp

text \<open>
  C7 as stated fails: the dot of \<open>HArt.\<close> in the pattern matches a space, so the marker
  search does return \<open>HArt \<close> (with the space).
\<close>

theorem marker_search_returns_HArt_space:
  "re_search letters_pattern (drop 9 ''000500050HArt 1.html'') = Some ''HArt ''
   \<and> parse_filestring ''000500050HArt 1.html'' = (''000500050'', ''HArt '', ''1'')"
  by code_simp

section \<open>Properties of the crawl\<close>

text \<open>
  C7 (as amended). The dot in \<open>HArt.\<close> and \<open>HCh.\<close> matches every character but the line
  feed, so the marker search returns \<open>HArt \<close>, \<open>HCh \<close> and \<open>HArt,\<close> for filenames that
  have them at offset 9, whatever the 9 characters before and the text after; the
  mapping entries with these keys are reachable: the row of such a filename gets the
  label of its key, and the labels \<open>Article (HArtDiv)\<close> and \<open>Chapter (HChArt)\<close> appear
  in the output of \<open>build_ilcs_index\<close>.
\<close>

theorem spaced_markers_are_reachable:
  "fst (snd (parse_filestring ''000500050HArt 1.html'')) = ''HArt ''
   \<and> fst (snd (parse_filestring ''000500050HCh 1.html'')) = ''HCh ''
   \<and> fst (snd (parse_filestring ''000500050HArt,1.html'')) = ''HArt,''
   \<and> map_sum id (map ilcs_index_type_label)
        (build_ilcs_index (demo_site (Response first_chapter_page) ''000500050HArt 1.html'')
           ''https://ilga.gov'' ''/ftp/ILCS/'')
       = Inr [''Article (HArtDiv)'', ''Section (K)'']
   \<and> map_sum id (map ilcs_index_type_label)
        (build_ilcs_index (demo_site (Response first_chapter_page) ''000500050HCh 1.html'')
           ''https://ilga.gov'' ''/ftp/ILCS/'')
       = Inr [''Chapter (HChArt)'', ''Section (K)'']
   \<and> (\<forall>code rest cname curl aname aurl surl. length code = 9 \<longrightarrow>
          fst (snd (parse_filestring (code @ ''HArt '' @ rest))) = ''HArt ''
        \<and> fst (snd (parse_filestring (code @ ''HCh '' @ rest))) = ''HCh ''
        \<and> fst (snd (parse_filestring (code @ ''HArt,'' @ rest))) = ''HArt,''
        \<and> ilcs_index_type_label (classify (cname, curl, aname, aurl, code @ ''HArt '' @ rest, surl))
            = ''Article (HArtDiv)''
        \<and> ilcs_index_type_label (classify (cname, curl, aname, aurl, code @ ''HCh '' @ rest, surl))
            = ''Chapter (HChArt)''
        \<and> ilcs_index_type_label (classify (cname, curl, aname, aurl, code @ ''HArt,'' @ rest, surl))
            = ''Article (HArt)'')"
proof -
  have concrete:
    "fst (snd (parse_filestring ''000500050HArt 1.html'')) = ''HArt ''
     \<and> fst (snd (parse_filestring ''000500050HCh 1.html'')) = ''HCh ''
     \<and> fst (snd (parse_filestring ''000500050HArt,1.html'')) = ''HArt,''
     \<and> map_sum id (map ilcs_index_type_label)
          (build_ilcs_index (demo_site (Response first_chapter_page) ''000500050HArt 1.html'')
             ''https://ilga.gov'' ''/ftp/ILCS/'')
         = Inr [''Article (HArtDiv)'', ''Section (K)'']
     \<and> map_sum id (map ilcs_index_type_label)
          (build_ilcs_index (demo_site (Response first_chapter_page) ''000500050HCh 1.html'')
             ''https://ilga.gov'' ''/ftp/ILCS/'')
         = Inr [''Chapter (HChArt)'', ''Section (K)'']"
    by code_simp
  have ty: "fst (snd (parse_filestring (code @ ''HArt '' @ rest))) = ''HArt ''"
    "fst (snd (parse_filestring (code @ ''HCh '' @ rest))) = ''HCh ''"
    "fst (snd (parse_filestring (code @ ''HArt,'' @ rest))) = ''HArt,''"
    if "length code = 9" for code rest
    using that by (simp_all add: parse_filestring_def Let_def letters_pattern_def nl_def)
  have lab: "ilcs_index_type_label (classify (cname, curl, aname, aurl, sfile, surl))
      = type_label (fst (snd (parse_filestring sfile)))" for cname curl aname aurl sfile surl
    by (simp add: classify_def split: prod.splits)
  have labels: "type_label ''HArt '' = ''Article (HArtDiv)''"
    "type_label ''HCh '' = ''Chapter (HChArt)''" "type_label ''HArt,'' = ''Article (HArt)''"
    by (simp_all add: type_label_def mapping_def)
  show ?thesis using concrete ty labels by (auto simp add: lab)
qed

text \<open>The general part at the code \<open>000500050\<close> and the rest \<open>1.html\<close>.\<close>

theorem spaced_markers_are_reachable_witness:
  "length ''000500050'' = 9
   \<and> fst (snd (parse_filestring (''000500050'' @ ''HArt '' @ ''1.html''))) = ''HArt ''
   \<and> fst (snd (parse_filestring (''000500050'' @ ''HCh '' @ ''1.html''))) = ''HCh ''
   \<and> fst (snd (parse_filestring (''000500050'' @ ''HArt,'' @ ''1.html''))) = ''HArt,''
   \<and> ilcs_index_type_label
        (classify (''Ch 0005'', ''/ftp/ILCS/Ch5/'', ''Act 0005'', ''/ftp/ILCS/Ch5/A5/'',
                   ''000500050'' @ ''HArt '' @ ''1.html'', Some ''/ftp/ILCS/Ch5/A5/f.html''))
       = ''Article (HArtDiv)''"
proof -
  have a: "length ''000500050'' = 9" by simp
  from spaced_markers_are_reachable
  have "\<forall>code rest cname curl aname aurl surl. length code = 9 \<longrightarrow>
          fst (snd (parse_filestring (code @ ''HArt '' @ rest))) = ''HArt ''
        \<and> fst (snd (parse_filestring (code @ ''HCh '' @ rest))) = ''HCh ''
        \<and> fst (snd (parse_filestring (code @ ''HArt,'' @ rest))) = ''HArt,''
        \<and> ilcs_index_type_label (classify (cname, curl, aname, aurl, code @ ''HArt '' @ rest, surl))
            = ''Article (HArtDiv)''
        \<and> ilcs_index_type_label (classify (cname, curl, aname, aurl, code @ ''HCh '' @ rest, surl))
            = ''Chapter (HChArt)''
        \<and> ilcs_index_type_label (classify (cname, curl, aname, aurl, code @ ''HArt,'' @ rest, surl))
            = ''Article (HArt)''"
    by (elim conjE)
  from this [rule_format, OF a, of "''1.html''" "''Ch 0005''" "''/ftp/ILCS/Ch5/''" "''Act 0005''"
      "''/ftp/ILCS/Ch5/A5/''" "Some ''/ftp/ILCS/Ch5/A5/f.html''"] a
  show ?thesis by blast
qed

text \<open>
  C5. In every record that \<open>build_ilcs_index\<close> returns, \<open>ilcs_index_number\<close> is the
  first 9 characters of \<open>section_file\<close> (all of it when it is shorter), and
  \<open>ilcs_index_type_label\<close> is \<open>Unknown\<close> whenever \<open>ilcs_index_type\<close> is not a key of the
  mapping; when the marker search finds nothing the type is empty and the label is
  \<open>Unknown\<close>.
\<close>

theorem index_number_and_unknown_label:
  assumes "build_ilcs_index st base root = Inr recs" and "r \<in> set recs"
  shows "ilcs_index_number r = take 9 (section_file r)
         \<and> (ilcs_index_type r \<notin> fst ` set mapping \<longrightarrow> ilcs_index_type_label r = ''Unknown'')
         \<and> (re_search letters_pattern (drop 9 (section_file r)) = None
              \<longrightarrow> ilcs_index_type r = [] \<and> ilcs_index_type_label r = ''Unknown'')"
proof -
  from assms obtain x where r: "r = classify x"
    by (auto simp add: build_ilcs_index_def split: sum.splits if_splits)
  obtain cname curl aname aurl sfile surl where x: "x = (cname, curl, aname, aurl, sfile, surl)"
    by (cases x) auto
  have sf: "section_file r = sfile" and num: "ilcs_index_number r = take 9 sfile"
    and ty: "ilcs_index_type r = fst (snd (parse_filestring sfile))"
    and lab: "ilcs_index_type_label r = type_label (ilcs_index_type r)"
    unfolding r x by (simp_all add: classify_def parse_filestring_def Let_def)
  have unk: "type_label t = ''Unknown''" if "t \<notin> fst ` set mapping" for t
    using that by (simp add: type_label_def map_of_eq_None_iff [THEN iffD2])
  have empty: "[] \<notin> fst ` set mapping" by (simp add: mapping_def)
  have nomatch: "ilcs_index_type r = []" if "re_search letters_pattern (drop 9 sfile) = None"
    using that by (simp add: ty parse_filestring_def)
  show ?thesis using sf num lab unk empty nomatch by auto
qed

theorem index_number_and_unknown_label_witness:
  "build_ilcs_index (demo_site (Response first_chapter_page) ''0005.html'')
     ''https://ilga.gov'' ''/ftp/ILCS/'' = Inr (map classify demo_rows)
   \<and> classify (hd demo_rows) \<in> set (map classify demo_rows)
   \<and> ilcs_index_type (classify (hd demo_rows)) \<notin> fst ` set mapping
   \<and> re_search letters_pattern (drop 9 (section_file (classify (hd demo_rows)))) = None
   \<and> ilcs_index_number (classify (hd demo_rows)) = ''0005.html''
   \<and> ilcs_index_type_label (classify (hd demo_rows)) = ''Unknown''"
proof -
  have a: "build_ilcs_index (demo_site (Response first_chapter_page) ''0005.html'')
     ''https://ilga.gov'' ''/ftp/ILCS/'' = Inr (map classify demo_rows)"
    by code_simp
  have b: "classify (hd demo_rows) \<in> set (map classify demo_rows)"
    by (simp add: demo_rows_def)
  have c: "ilcs_index_type (classify (hd demo_rows)) \<notin> fst ` set mapping"
    by code_simp
  have d: "re_search letters_pattern (drop 9 (section_file (classify (hd demo_rows)))) = None"
    by code_simp
  have e: "take 9 (section_file (classify (hd demo_rows))) = ''0005.html''"
    by code_simp
  show ?thesis using a b c d e index_number_and_unknown_label [OF a b] by simp
qed

text \<open>
  C8. The claim is that a chapter or act whose listing fetch ends in the "no result"
  value contributes no records while the crawl goes on and returns the records of the
  other branches. \<open>_request_util\<close> does return \<open>None\<close> for a timeout, but \<open>_get_pages\<close>
  reads \<open>response.text\<close> without looking at it, and \<open>build_ilcs_index\<close> catches nothing:
  on the small site, with the first chapter timing out and the second chapter in
  order, the whole crawl ends in \<open>AttributeError\<close>.
\<close>

theorem failed_chapter_fetch_aborts_crawl:
  "request_util Timeout = Inr None
   \<and> get_pages (demo_site Timeout ''000500050K1.html'') ''https://ilga.gov'' ''/ftp/ILCS/Ch5/''
       = Inl AttributeError
   \<and> map_sum id rows
        (get_pages (demo_site Timeout ''000500050K1.html'') ''https://ilga.gov'' ''/ftp/ILCS/Ch10/'')
       = Inr [(''Act 0005'', Some ''/ftp/ILCS/Ch10/A5/'')]
   \<and> build_ilcs_index (demo_site Timeout ''000500050K1.html'') ''https://ilga.gov'' ''/ftp/ILCS/''
       = Inl AttributeError"
  by code_simp

subsection \<open>Empty listings\<close>

lemma hrefs_iff: "u \<in> set (hrefs rs) \<longleftrightarrow> (\<exists>l. (l, Some u) \<in> set rs)"
  by (induction rs) (auto simp add: hrefs_def split: option.splits)

text \<open>A loop that ends normally has had the listing of every href it went through.\<close>

lemma crawl_acts_fetches:
  "crawl_acts st base cn cu acts rs df = Inr df' \<Longrightarrow> u \<in> set (hrefs rs)
     \<Longrightarrow> \<exists>f. get_pages st base u = Inr f"
proof (induction rs arbitrary: df)
  case Nil
  then show ?case by (simp add: hrefs_def)
next
  case (Cons r rest)
  from Cons.prems(1) obtain aurl aname f where
    r: "snd r = Some aurl" and f: "get_pages st base aurl = Inr f"
    and rec: "crawl_acts st base cn cu acts rest
                (df @ map (\<lambda>s. (cn, cu, aname, aurl, fst s, snd s)) (rows f)) = Inr df'"
    by (auto split: option.splits sum.splits)
  from Cons.prems(2) r have "u = aurl \<or> u \<in> set (hrefs rest)"
    by (auto simp add: hrefs_def)
  then show ?case
  proof
    assume "u = aurl" with f show ?thesis by blast
  next
    assume "u \<in> set (hrefs rest)" with rec show ?thesis by (rule Cons.IH)
  qed
qed

lemma crawl_chapters_fetches:
  "crawl_chapters st base chs rs df = Inr df' \<Longrightarrow> u \<in> set (hrefs rs)
     \<Longrightarrow> \<exists>f. get_pages st base u = Inr f
           \<and> (\<forall>a \<in> set (hrefs (rows f)). \<exists>g. get_pages st base a = Inr g)"
proof (induction rs arbitrary: df)
  case Nil
  then show ?case by (simp add: hrefs_def)
next
  case (Cons r rest)
  from Cons.prems(1) obtain curl cname f df1 where
    r: "snd r = Some curl" and f: "get_pages st base curl = Inr f"
    and acts: "crawl_acts st base cname curl (rows f) (rows f) df = Inr df1"
    and rec: "crawl_chapters st base chs rest df1 = Inr df'"
    by (auto split: option.splits sum.splits)
  from Cons.prems(2) r have "u = curl \<or> u \<in> set (hrefs rest)"
    by (auto simp add: hrefs_def)
  then show ?case
  proof
    assume "u = curl"
    with f crawl_acts_fetches [OF acts] show ?thesis by blast
  next
    assume "u \<in> set (hrefs rest)" with rec show ?thesis by (rule Cons.IH)
  qed
qed

lemma build_fetches_every_listing:
  assumes "build_ilcs_index st base root = Inr recs" and "p \<in> set (crawled_paths st base root)"
  shows "\<exists>f. get_pages st base p = Inr f"
proof -
  from assms(1) obtain f df where f: "get_pages st base root = Inr f"
    and ch: "crawl_chapters st base (rows f) (rows f) [] = Inr df"
    by (auto simp add: build_ilcs_index_def split: sum.splits if_splits)
  have lr: "listing_rows st base root = rows f" using f by (simp add: listing_rows_def)
  from assms(2) consider "p = root" | "p \<in> set (hrefs (rows f))"
    | c where "c \<in> set (hrefs (rows f))" "p \<in> set (hrefs (listing_rows st base c))"
    by (auto simp add: crawled_paths_def lr)
  then show ?thesis
  proof cases
    case 1 with f show ?thesis by blast
  next
    case 2 with crawl_chapters_fetches [OF ch] show ?thesis by blast
  next
    case 3
    from crawl_chapters_fetches [OF ch 3(1)] obtain g where
      g: "get_pages st base c = Inr g" and
      all: "\<forall>a \<in> set (hrefs (rows g)). \<exists>h. get_pages st base a = Inr h" by blast
    from g have "listing_rows st base c = rows g" by (simp add: listing_rows_def)
    with 3(2) all show ?thesis by simp
  qed
qed

lemma get_pages_empty_listing:
  assumes "st (base @ path) = Response soup" and "link_entries soup = []"
  shows "get_pages st base path = Inl KeyError"
  using assms by (simp add: get_pages_def json_normalize_def)

text \<open>No link entry survives exactly when there is no \<open>pre\<close> block or every anchor in
  it (there may be none) is the parent-directory entry.\<close>

lemma link_entries_empty_iff:
  "link_entries soup = [] \<longleftrightarrow>
     (case find_tag ''pre'' soup of None \<Rightarrow> True
      | Some pre_tag \<Rightarrow> \<forall>a \<in> set (find_all_tag ''a'' pre_tag). get_text a = ''[To Parent Directory]'')"
  by (auto simp add: link_entries_def filter_empty_conv split: option.splits)

text \<open>
  C10. For a listing document without a \<open>pre\<close> block, without anchors in it, or with
  only the \<open>[To Parent Directory]\<close> anchor, no link entry survives, \<open>_get_pages\<close> raises
  \<open>KeyError\<close>, and a crawl that asks for this listing (as its root, as a chapter or as
  an act) ends in an exception.
\<close>

theorem empty_listing_raises_KeyError:
  assumes "st (base @ path) = Response soup"
    and "case find_tag ''pre'' soup of None \<Rightarrow> True
         | Some pre_tag \<Rightarrow> \<forall>a \<in> set (find_all_tag ''a'' pre_tag). get_text a = ''[To Parent Directory]''"
  shows "link_entries soup = [] \<and> get_pages st base path = Inl KeyError
         \<and> (path \<in> set (crawled_paths st base root) \<longrightarrow> (\<exists>e. build_ilcs_index st base root = Inl e))"
proof -
  have e: "link_entries soup = []" using assms(2) by (simp add: link_entries_empty_iff)
  have k: "get_pages st base path = Inl KeyError" using assms(1) e by (rule get_pages_empty_listing)
  have "\<exists>e. build_ilcs_index st base root = Inl e" if "path \<in> set (crawled_paths st base root)"
  proof (cases "build_ilcs_index st base root")
    case (Inl a) then show ?thesis by blast
  next
    case (Inr recs)
    from build_fetches_every_listing [OF Inr that] k show ?thesis by simp
  qed
  with e k show ?thesis by blast
qed

theorem empty_listing_raises_KeyError_witness:
  "demo_site (Response parent_only_page) ''000500050K1.html'' (''https://ilga.gov'' @ ''/ftp/ILCS/Ch5/'')
     = Response parent_only_page
   \<and> (case find_tag ''pre'' parent_only_page of None \<Rightarrow> True
      | Some pre_tag \<Rightarrow> \<forall>a \<in> set (find_all_tag ''a'' pre_tag). get_text a = ''[To Parent Directory]'')
   \<and> ''/ftp/ILCS/Ch5/'' \<in> set (crawled_paths (demo_site (Response parent_only_page) ''000500050K1.html'')
         ''https://ilga.gov'' ''/ftp/ILCS/'')
   \<and> get_pages (demo_site (Response parent_only_page) ''000500050K1.html'') ''https://ilga.gov'' ''/ftp/ILCS/Ch5/''
       = Inl KeyError
   \<and> (\<exists>e. build_ilcs_index (demo_site (Response parent_only_page) ''000500050K1.html'')
         ''https://ilga.gov'' ''/ftp/ILCS/'' = Inl e)"
proof -
  let ?st = "demo_site (Response parent_only_page) ''000500050K1.html''"
  have a: "?st (''https://ilga.gov'' @ ''/ftp/ILCS/Ch5/'') = Response parent_only_page"
    by (simp add: demo_site_def)
  have b: "case find_tag ''pre'' parent_only_page of None \<Rightarrow> True
      | Some pre_tag \<Rightarrow> \<forall>a \<in> set (find_all_tag ''a'' pre_tag). get_text a = ''[To Parent Directory]''"
    by (simp add: parent_only_page_def listing_page_def find_tag_def find_all_tag_def get_text_def all_strings_def)
  have c: "''/ftp/ILCS/Ch5/'' \<in> set (crawled_paths ?st ''https://ilga.gov'' ''/ftp/ILCS/'')"
    by code_simp
  note inst = empty_listing_raises_KeyError [where st = ?st and base = "''https://ilga.gov''"
      and path = "''/ftp/ILCS/Ch5/''" and soup = parent_only_page and root = "''/ftp/ILCS/''"]
  show ?thesis
    using a b c inst [OF a b] by blast
qed

section \<open>Properties of the act page extractor\<close>

lemma after_first_None_iff: "sep \<noteq> [] \<Longrightarrow> after_first sep s = None \<longleftrightarrow> \<not> sublist sep s"
  by (induction s) (auto simp add: sublist_Cons_right)

lemma label_match_absent: "label \<noteq> [] \<Longrightarrow> \<not> sublist label t \<Longrightarrow> label_match label t = None"
  by (simp add: label_match_def after_first_None_iff)

lemma title_desc_match_absent: "\<not> sublist ''Title:'' t \<Longrightarrow> title_desc_match t = None"
  by (simp add: title_desc_match_def after_first_None_iff)

lemma act_fields_keys: "map fst (act_fields t) = act_field_names"
  by (simp add: act_fields_def act_field_names_def)

lemma map_of_act_fields:
  "map_of (act_fields t) ''ilcs_code'' = Some (ilcs_code_match t)"
  "map_of (act_fields t) ''ilcs_act_title'' = Some (act_title_match t)"
  "map_of (act_fields t) ''title_description'' =
     Some (map_option (\<lambda>g. join '' '' (split_ws [] (py_strip (before_first ''Cite:'' g))))
             (title_desc_match t))"
  "map_of (act_fields t) ''cite'' = Some (map_option py_strip (label_match ''Cite:'' t))"
  "map_of (act_fields t) ''source'' = Some (map_option py_strip (label_match ''Source:'' t))"
  "map_of (act_fields t) ''short_title'' = Some (map_option py_strip (label_match ''Short title:'' t))"
  by (simp_all add: act_fields_def)

text \<open>With the justified container nothing is raised, the record has the six keys, and
  a field whose pattern does not match, or whose label does not occur in the
  flattened text, is null.\<close>

lemma parse_act_page_with_container:
  assumes "st (base @ path) = Response soup" and "find_justified_div soup = Some container"
  shows "parse_act_page st base path = Inr (act_fields (get_text_lines container))"
    and "map fst (act_fields (get_text_lines container)) = act_field_names"
    and "ilcs_code_match (get_text_lines container) = None
           \<Longrightarrow> map_of (act_fields (get_text_lines container)) ''ilcs_code'' = Some None"
    and "act_title_match (get_text_lines container) = None
           \<Longrightarrow> map_of (act_fields (get_text_lines container)) ''ilcs_act_title'' = Some None"
    and "\<not> sublist ''Title:'' (get_text_lines container)
           \<Longrightarrow> map_of (act_fields (get_text_lines container)) ''title_description'' = Some None"
    and "\<not> sublist ''Cite:'' (get_text_lines container)
           \<Longrightarrow> map_of (act_fields (get_text_lines container)) ''cite'' = Some None"
    and "\<not> sublist ''Source:'' (get_text_lines container)
           \<Longrightarrow> map_of (act_fields (get_text_lines container)) ''source'' = Some None"
    and "\<not> sublist ''Short title:'' (get_text_lines container)
           \<Longrightarrow> map_of (act_fields (get_text_lines container)) ''short_title'' = Some None"
  using assms
  by (simp_all add: parse_act_page_def act_data_of_def act_fields_keys map_of_act_fields
      label_match_absent title_desc_match_absent)

text \<open>Without the container nothing is raised either, but the dictionary stays empty:
  the record has no key at all.\<close>

lemma parse_act_page_no_container:
  assumes "st (base @ path) = Response soup" and "find_justified_div soup = None"
  shows "parse_act_page st base path = Inr []"
  using assms by (simp add: parse_act_page_def act_data_of_def)

text \<open>
  C9. The claim is that \<open>parse_act_page\<close> raises nothing for missing fields, that a
  field whose pattern or label does not match is null, and that without a justified
  container the record returned has every one of the six fields null. The first two
  hold. For the third, \<open>data\<close> is filled only inside \<open>if div:\<close>, so on a page without
  the container the record returned has none of the six keys: the table has one row
  and no column, against the docstring, which promises the six columns, and unlike
  \<open>parse_statute_page\<close>, which sets its keys to \<open>None\<close> beforehand. On the page with the
  container the unmatched fields are keys with the value \<open>None\<close>.
\<close>

theorem parse_act_page_without_container:
  "demo_act_site (''https://ilga.gov'' @ ''/ftp/ILCS/Ch5/A5/moved.html'') = Response demo_plain_page
   \<and> find_justified_div demo_plain_page = None
   \<and> parse_act_page demo_act_site ''https://ilga.gov'' ''/ftp/ILCS/Ch5/A5/moved.html'' = Inr []
   \<and> map_sum id (\<lambda>d. map (map_of d) act_field_names)
        (parse_act_page demo_act_site ''https://ilga.gov'' ''/ftp/ILCS/Ch5/A5/moved.html'')
       = Inr [None, None, None, None, None, None]
   \<and> map_sum id (\<lambda>d. map (map_of d) act_field_names)
        (parse_act_page demo_act_site ''https://ilga.gov'' ''/ftp/ILCS/Ch5/A5/000500050F.html'')
       = Inr [Some (Some ''35 ILCS 200/''), Some (Some ''from Ch. 120, par. 1-1''), Some None,
              Some (Some ''35 ILCS 200''), Some None, Some None]"
  by code_simp

section \<open>Properties of the statute page extractor\<close>

subsection \<open>Stripping and the loop over the lines\<close>

lemma dropWhile_hd_id: "xs \<noteq> [] \<Longrightarrow> \<not> P (hd xs) \<Longrightarrow> dropWhile P xs = xs"
  by (cases xs) simp_all

lemma py_strip_clean_id: "clean l \<Longrightarrow> py_strip l = l"
  by (simp add: clean_def py_strip_def dropWhile_hd_id hd_rev)

lemma py_strip_Nil: "py_strip [] = []"
  by (simp add: py_strip_def)

lemma py_strip_result_clean:
  assumes "py_strip s \<noteq> []"
  shows "clean (py_strip s)"
proof -
  let ?a = "dropWhile py_isspace s"
  let ?b = "dropWhile py_isspace (rev ?a)"
  have b: "?b \<noteq> []" using assms by (simp add: py_strip_def)
  have a: "?a \<noteq> []"
  proof
    assume "?a = []"
    with b show False by (metis dropWhile.simps(1) rev.simps(1))
  qed
  have hb: "\<not> py_isspace (hd ?b)" using b by (rule hd_dropWhile)
  have ha: "\<not> py_isspace (hd ?a)" using a by (rule hd_dropWhile)
  have "rev ?a = takeWhile py_isspace (rev ?a) @ ?b" by simp
  then have "?a = rev ?b @ rev (takeWhile py_isspace (rev ?a))"
    by (metis rev_append rev_rev_ident)
  then have "hd ?a = hd (rev ?b)" using b by (metis hd_append2 rev_is_Nil_conv)
  with ha have "\<not> py_isspace (hd (rev ?b))" by simp
  moreover have "last (rev ?b) = hd ?b" using b by (simp add: last_rev)
  ultimately show ?thesis using b hb by (simp add: clean_def py_strip_def)
qed

lemma py_strip_idem: "py_strip (py_strip s) = py_strip s"
proof (cases "py_strip s = []")
  case True
  then show ?thesis by (simp add: py_strip_Nil)
next
  case False
  then show ?thesis by (simp add: py_strip_result_clean py_strip_clean_id)
qed

lemma scan_step_skip: "py_strip raw = [] \<Longrightarrow> scan_step ind st raw = st"
  by (simp add: scan_step_def)

lemma scan_step_strip: "scan_step ind st (py_strip raw) = scan_step ind st raw"
  by (simp add: scan_step_def py_strip_idem)

lemma scan_lines_Nil: "scan_lines ind [] st = st"
  by (simp add: scan_lines_def)

lemma scan_lines_Cons: "scan_lines ind (l # ls) st = scan_lines ind ls (scan_step ind st l)"
  by (simp add: scan_lines_def)

lemma scan_lines_append:
  "scan_lines ind (xs @ ys) st = scan_lines ind ys (scan_lines ind xs st)"
  by (simp add: scan_lines_def)

lemma scan_lines_stripped:
  "scan_lines ind raws st = scan_lines ind (filter (\<lambda>l. l \<noteq> []) (map py_strip raws)) st"
  by (induction raws arbitrary: st)
    (simp_all add: scan_lines_Nil scan_lines_Cons scan_step_skip scan_step_strip)

lemma scan_step_before_section:
  assumes "\<not> prefix ''Sec.'' (py_strip l)" and "\<not> found_statute_text st"
  shows "\<exists>s. scan_step ind st l = st\<lparr>src_line := s\<rparr>"
proof (cases "py_strip l \<noteq> [] \<and> prefix ''(Source:'' (py_strip l)")
  case True
  then have "scan_step ind st l = st\<lparr>src_line := Some (py_strip l)\<rparr>"
    using assms by (simp add: scan_step_def)
  then show ?thesis ..
next
  case False
  then have "scan_step ind st l = st\<lparr>src_line := src_line st\<rparr>"
    using assms by (auto simp add: scan_step_def Let_def)
  then show ?thesis ..
qed

lemma scan_before_section:
  assumes "\<forall>l \<in> set ls. \<not> prefix ''Sec.'' (py_strip l)" and "\<not> found_statute_text st"
  shows "\<exists>s. scan_lines ind ls st = st\<lparr>src_line := s\<rparr>"
  using assms
proof (induction ls arbitrary: st)
  case Nil
  have "scan_lines ind [] st = st\<lparr>src_line := src_line st\<rparr>" by (simp add: scan_lines_Nil)
  then show ?case ..
next
  case (Cons l ls)
  from Cons.prems obtain s where s: "scan_step ind st l = st\<lparr>src_line := s\<rparr>"
    using scan_step_before_section [of l st ind] by auto
  have "\<exists>s'. scan_lines ind ls (st\<lparr>src_line := s\<rparr>) = st\<lparr>src_line := s\<rparr>\<lparr>src_line := s'\<rparr>"
    using Cons.prems by (intro Cons.IH) simp_all
  then obtain s' where "scan_lines ind ls (st\<lparr>src_line := s\<rparr>) = st\<lparr>src_line := s'\<rparr>" by auto
  with s have "scan_lines ind (l # ls) st = st\<lparr>src_line := s'\<rparr>" by (simp add: scan_lines_Cons)
  then show ?case ..
qed

lemma scan_body:
  assumes "\<forall>l \<in> set ls. clean l \<and> \<not> prefix ''(Source:'' l"
    and "found_section st" and "found_statute_text st"
  shows "scan_lines ind ls st = st\<lparr>statute_text_lines := statute_text_lines st @ map ind ls\<rparr>"
  using assms
proof (induction ls arbitrary: st)
  case Nil
  then show ?case by (simp add: scan_lines_Nil)
next
  case (Cons l ls)
  let ?st = "st\<lparr>statute_text_lines := statute_text_lines st @ [ind l]\<rparr>"
  have l: "py_strip l = l" "l \<noteq> []" "\<not> prefix ''(Source:'' l"
    using Cons.prems(1) by (simp_all add: py_strip_clean_id clean_def)
  have step: "scan_step ind st l = ?st"
    using l Cons.prems(2,3) by (simp add: scan_step_def)
  have "scan_lines ind ls ?st = ?st\<lparr>statute_text_lines := statute_text_lines ?st @ map ind ls\<rparr>"
    using Cons.prems by (intro Cons.IH) simp_all
  with step show ?case by (simp add: scan_lines_Cons)
qed

lemma scan_after_source:
  assumes "\<forall>l \<in> set ls. \<not> prefix ''(Source:'' (py_strip l)"
    and "found_section st" and "\<not> found_statute_text st"
  shows "scan_lines ind ls st = st"
  using assms
  by (induction ls arbitrary: st) (simp_all add: scan_lines_Nil scan_lines_Cons scan_step_def Let_def)

lemma scan_step_map_lines:
  "scan_step ind (map_lines ind st) raw = map_lines ind (scan_step (\<lambda>l. l) st raw)"
  by (simp add: scan_step_def map_lines_def Let_def)

lemma scan_lines_map_lines:
  "scan_lines ind ls (map_lines ind st) = map_lines ind (scan_lines (\<lambda>l. l) ls st)"
  by (induction ls arbitrary: st) (simp_all add: scan_lines_Nil scan_lines_Cons scan_step_map_lines)

lemma scan_lines_init:
  "scan_lines ind ls init_state = map_lines ind (scan_lines (\<lambda>l. l) ls init_state)"
  using scan_lines_map_lines [of ind ls init_state] by (simp add: map_lines_def init_state_def)

lemma scan_step_keeps_clean:
  assumes "\<forall>l \<in> set (statute_text_lines st). clean l"
  shows "\<forall>l \<in> set (statute_text_lines (scan_step (\<lambda>l. l) st raw)). clean l"
  using assms by (simp add: scan_step_def Let_def py_strip_result_clean)

lemma scan_keeps_clean:
  assumes "\<forall>l \<in> set (statute_text_lines st). clean l"
  shows "\<forall>l \<in> set (statute_text_lines (scan_lines (\<lambda>l. l) ls st)). clean l"
  using assms
proof (induction ls arbitrary: st)
  case Nil
  then show ?case by (simp add: scan_lines_Nil)
next
  case (Cons raw ls)
  from Cons.prems have "\<forall>l \<in> set (statute_text_lines (scan_step (\<lambda>l. l) st raw)). clean l"
    by (rule scan_step_keeps_clean)
  then show ?case unfolding scan_lines_Cons by (rule Cons.IH)
qed

lemma captured_lines_clean: "\<forall>l \<in> set (captured_lines t). clean l"
  unfolding captured_lines_def by (rule scan_keeps_clean) (simp add: init_state_def)

subsection \<open>The joined block\<close>

lemma join_Cons: "join sep (x # xs) = x @ (if xs = [] then [] else sep @ join sep xs)"
  by (cases xs) simp_all

lemma join_last_nonempty: "ls \<noteq> [] \<Longrightarrow> last ls \<noteq> [] \<Longrightarrow> join sep ls \<noteq> []"
  by (induction sep ls rule: join.induct) simp_all

lemma last_join:
  "ls \<noteq> [] \<Longrightarrow> last ls \<noteq> [] \<Longrightarrow> last (join sep ls) = last (last ls)"
proof (induction sep ls rule: join.induct)
  case (1 sep)
  then show ?case by simp
next
  case (2 sep x)
  then show ?case by simp
next
  case (3 sep x y ys)
  from 3 have "join sep (y # ys) \<noteq> []" by (intro join_last_nonempty) simp_all
  with 3 show ?case by simp
qed

lemma py_strip_spaces_clean:
  assumes "clean x"
  shows "py_strip (replicate k CHR '' '' @ x) = x"
proof -
  have "dropWhile py_isspace (replicate k CHR '' '' @ x) = dropWhile py_isspace x"
    by (induction k) (simp_all add: py_isspace_def)
  then have "py_strip (replicate k CHR '' '' @ x) = py_strip x"
    by (simp only: py_strip_def)
  with assms show ?thesis by (simp add: py_strip_clean_id)
qed

lemma render_line_eq:
  "render_line soup l = replicate (indent_spaces soup l) CHR '' '' @ l"
  by (simp add: render_line_def indent_spaces_def split: option.splits)

text \<open>Trimming the joined block removes the indentation of the first line only.\<close>

lemma py_strip_joined_block:
  assumes "\<forall>l \<in> set (b # bs). clean l"
  shows "py_strip (join [nl] (map (render_line soup) (b # bs)))
           = join [nl] (b # map (render_line soup) bs)"
proof -
  let ?X = "join [nl] (b # map (render_line soup) bs)"
  have b: "b \<noteq> []" "\<not> py_isspace (hd b)" using assms by (simp_all add: clean_def)
  have ne: "?X \<noteq> []" using b by (simp add: join_Cons)
  have hdX: "hd ?X = hd b" using b by (simp add: join_Cons)
  have lastl: "last (b # map (render_line soup) bs) \<noteq> []
      \<and> \<not> py_isspace (last (last (b # map (render_line soup) bs)))"
  proof (cases bs rule: rev_cases)
    case Nil
    then show ?thesis using assms by (simp add: clean_def)
  next
    case (snoc ys y)
    then have "clean y" using assms by simp
    then have "render_line soup y \<noteq> [] \<and> \<not> py_isspace (last (render_line soup y))"
      by (simp add: clean_def render_line_eq)
    with snoc show ?thesis by simp
  qed
  have lastX: "\<not> py_isspace (last ?X)"
    using lastl last_join [of "b # map (render_line soup) bs" "[nl]"] by simp
  have cl: "clean ?X" using ne hdX b lastX by (simp add: clean_def)
  have "join [nl] (map (render_line soup) (b # bs)) = replicate (indent_spaces soup b) CHR '' '' @ ?X"
    by (simp add: join_Cons render_line_eq)
  then show ?thesis using py_strip_spaces_clean [OF cl] by simp
qed

lemma statute_text_form:
  "statute_text (statute_of soup body) =
     (case captured_lines (get_text_lines body) of
        [] \<Rightarrow> []
      | b # bs \<Rightarrow> join [nl] (b # map (render_line soup) bs))"
proof -
  let ?t = "get_text_lines body"
  have st: "statute_text (statute_of soup body)
      = py_strip (join [nl] (map (render_line soup) (captured_lines ?t)))"
    by (simp add: statute_of_def Let_def captured_lines_def map_lines_def
        scan_lines_init [of "render_line soup"])
  show ?thesis
  proof (cases "captured_lines ?t")
    case Nil
    then show ?thesis using st by (simp add: py_strip_Nil)
  next
    case (Cons b bs)
    then have "\<forall>l \<in> set (b # bs). clean l" using captured_lines_clean [of ?t] by simp
    then show ?thesis using st Cons by (simp only: py_strip_joined_block list.case)
  qed
qed

lemma statute_fields_plain:
  "section_number (statute_of soup body)
     = sec_number (scan_lines (\<lambda>l. l) (split_char nl (processed_text (get_text_lines body))) init_state)"
  "source (statute_of soup body)
     = src_line (scan_lines (\<lambda>l. l) (split_char nl (processed_text (get_text_lines body))) init_state)"
  "amended_statute (statute_of soup body) = sublist amendment_marker (get_text_lines body)"
  by (simp_all add: statute_of_def Let_def map_lines_def scan_lines_init [of "render_line soup"])

subsection \<open>Section number, body and source\<close>

lemma stmt_lines_clean: "l \<in> set (stmt_lines t) \<Longrightarrow> clean l"
  by (auto simp add: stmt_lines_def py_strip_result_clean)

lemma scan_lines_stmt_lines:
  "scan_lines ind (split_char nl t) st = scan_lines ind (stmt_lines t) st"
  unfolding stmt_lines_def by (rule scan_lines_stripped)

lemma section_number_short_title: "section_number_of ''Sec. 1. Short title.'' = ''1. Short title.''"
  by code_simp

lemma scan_section_body_source:
  assumes cl: "\<forall>l \<in> set (pre @ [sec] @ blines @ [src] @ post). clean l"
    and sec: "prefix ''Sec.'' sec"
    and pre: "\<forall>l \<in> set pre. \<not> prefix ''Sec.'' l"
    and bl: "\<forall>l \<in> set blines. \<not> prefix ''(Source:'' l"
    and src: "prefix ''(Source:'' src"
    and post: "\<forall>l \<in> set post. \<not> prefix ''(Source:'' l"
  shows "scan_lines ind (pre @ [sec] @ blines @ [src] @ post) init_state
           = \<lparr>sec_number = Some (section_number_of sec), src_line = Some src,
              found_section = True, found_statute_text = False,
              statute_text_lines = map ind blines\<rparr>"
proof -
  have id: "py_strip l = l" if "l \<in> set (pre @ [sec] @ blines @ [src] @ post)" for l
    using cl that by (auto simp add: py_strip_clean_id)
  have ne: "l \<noteq> []" if "l \<in> set (pre @ [sec] @ blines @ [src] @ post)" for l
    using cl that by (auto simp add: clean_def)
  have "\<forall>l \<in> set pre. \<not> prefix ''Sec.'' (py_strip l)" using pre id by simp
  then obtain s where s1: "scan_lines ind pre init_state = init_state\<lparr>src_line := s\<rparr>"
    using scan_before_section [of pre init_state ind] by (auto simp add: init_state_def)
  let ?s1 = "init_state\<lparr>src_line := s\<rparr>"
  let ?s2 = "?s1\<lparr>sec_number := Some (section_number_of sec),
                 found_section := True, found_statute_text := True\<rparr>"
  have s2: "scan_step ind ?s1 sec = ?s2"
    using sec id [of sec] ne [of sec] by (simp add: scan_step_def init_state_def)
  let ?s3 = "?s2\<lparr>statute_text_lines := statute_text_lines ?s2 @ map ind blines\<rparr>"
  have s3: "scan_lines ind blines ?s2 = ?s3"
    using cl bl by (intro scan_body) simp_all
  let ?s4 = "?s3\<lparr>src_line := Some src, found_statute_text := False\<rparr>"
  have nsec: "\<not> (prefix ''Sec.'' src \<and> \<not> found_section ?s3)" by simp
  have s4: "scan_step ind ?s3 src = ?s4"
    using src id [of src] ne [of src] nsec by (simp add: scan_step_def)
  have "\<forall>l \<in> set post. \<not> prefix ''(Source:'' (py_strip l)" using post id by simp
  then have s5: "scan_lines ind post ?s4 = ?s4"
    by (intro scan_after_source) simp_all
  have "scan_lines ind (pre @ [sec] @ blines @ [src] @ post) init_state = ?s4"
    by (simp only: scan_lines_append scan_lines_Cons scan_lines_Nil s1 s2 s3 s4 s5)
  then show ?thesis by (simp add: init_state_def)
qed

text \<open>
  C4 (as amended). Let the lines the loop handles (the stripped, non-empty lines of
  the flattened body, or of what follows the first amendment marker when there is
  one) be: lines of which none starts with \<open>Sec.\<close>, then \<open>Sec. 1. Short title.\<close>, then
  at least one body line, none of them starting with \<open>(Source:\<close>, then a line starting
  with \<open>(Source:\<close>, then lines of which none starts with \<open>(Source:\<close>. Then
  \<open>parse_statute_page\<close> returns \<open>section_number = "1. Short title."\<close>, \<open>source\<close> equal to
  that source line, and a non-empty \<open>statute_text\<close> made of exactly the body lines
  (the first as it is, the others indented); the lines before the section line and
  after the source line are discarded.
\<close>

theorem parse_statute_section_body_source:
  assumes resp: "st (base @ path) = Response soup" and body: "find_tag ''body'' soup = Some body"
    and lines: "stmt_lines (processed_text (get_text_lines body))
                  = pre @ [''Sec. 1. Short title.''] @ blines @ [src] @ post"
    and pre: "\<forall>l \<in> set pre. \<not> prefix ''Sec.'' l"
    and ne: "blines \<noteq> []"
    and bl: "\<forall>l \<in> set blines. \<not> prefix ''(Source:'' l"
    and src: "prefix ''(Source:'' src"
    and post: "\<forall>l \<in> set post. \<not> prefix ''(Source:'' l"
  shows "\<exists>r. parse_statute_page st base path = Inr r
    \<and> section_number r = Some ''1. Short title.''
    \<and> source r = Some src
    \<and> captured_lines (get_text_lines body) = blines
    \<and> statute_text r = join [nl] (hd blines # map (render_line soup) (tl blines))
    \<and> statute_text r \<noteq> []"
proof -
  let ?t = "get_text_lines body"
  let ?r = "statute_of soup body"
  have ret: "parse_statute_page st base path = Inr ?r"
    using resp body by (simp add: parse_statute_page_def)
  have cl: "\<forall>l \<in> set (pre @ [''Sec. 1. Short title.''] @ blines @ [src] @ post). clean l"
    using stmt_lines_clean [of _ "processed_text ?t"] unfolding lines by blast
  have sec: "prefix ''Sec.'' ''Sec. 1. Short title.''" by simp
  have scan: "scan_lines (\<lambda>l. l) (split_char nl (processed_text ?t)) init_state
      = \<lparr>sec_number = Some ''1. Short title.'', src_line = Some src,
         found_section = True, found_statute_text = False, statute_text_lines = blines\<rparr>"
    using scan_section_body_source [OF cl sec pre bl src post, of "\<lambda>l. l"]
    by (simp add: scan_lines_stmt_lines lines section_number_short_title)
  have cap: "captured_lines ?t = blines" by (simp add: captured_lines_def scan)
  obtain b bs where bb: "blines = b # bs" using ne by (cases blines) auto
  have stext: "statute_text ?r = join [nl] (b # map (render_line soup) bs)"
    by (simp add: statute_text_form cap bb)
  have "clean b" using cl bb by simp
  then have "statute_text ?r \<noteq> []" using stext by (simp add: join_Cons clean_def)
  then show ?thesis
    using ret stext bb cap by (simp add: statute_fields_plain scan)
qed

theorem parse_statute_section_body_source_witness:
  "demo_statute_site (''https://ilga.gov'' @ ''/s/indented.html'') = Response (statute_page indented_body)
   \<and> find_tag ''body'' (statute_page indented_body) = Some (Elem ''body'' [] indented_body)
   \<and> stmt_lines (processed_text (get_text_lines (Elem ''body'' [] indented_body)))
       = [] @ [''Sec. 1. Short title.''] @ [''First'', ''Second'']
         @ [''(Source: P.A. 90-655, eff. 7-30-98.)''] @ []
   \<and> (\<exists>r. parse_statute_page demo_statute_site ''https://ilga.gov'' ''/s/indented.html'' = Inr r
          \<and> section_number r = Some ''1. Short title.''
          \<and> source r = Some ''(Source: P.A. 90-655, eff. 7-30-98.)''
          \<and> statute_text r = ''First'' @ [nl] @ render_line (statute_page indented_body) ''Second''
          \<and> statute_text r \<noteq> [])"
proof -
  have a: "demo_statute_site (''https://ilga.gov'' @ ''/s/indented.html'')
             = Response (statute_page indented_body)"
    by (simp add: demo_statute_site_def)
  have b: "find_tag ''body'' (statute_page indented_body) = Some (Elem ''body'' [] indented_body)"
    by (simp add: find_tag_def statute_page_def)
  have c: "stmt_lines (processed_text (get_text_lines (Elem ''body'' [] indented_body)))
       = [] @ [''Sec. 1. Short title.''] @ [''First'', ''Second'']
         @ [''(Source: P.A. 90-655, eff. 7-30-98.)''] @ []"
    by code_simp
  have d: "\<forall>l \<in> set []. \<not> prefix ''Sec.'' l" by simp
  have e: "[''First'', ''Second''] \<noteq> []" by simp
  have f: "\<forall>l \<in> set [''First'', ''Second'']. \<not> prefix ''(Source:'' l" by simp
  have g: "prefix ''(Source:'' ''(Source: P.A. 90-655, eff. 7-30-98.)''" by simp
  have h: "\<forall>l \<in> set []. \<not> prefix ''(Source:'' l" by simp
  note inst = parse_statute_section_body_source [where st = demo_statute_site
      and base = "''https://ilga.gov''" and path = "''/s/indented.html''"
      and soup = "statute_page indented_body" and body = "Elem ''body'' [] indented_body"
      and pre = "[]" and blines = "[''First'', ''Second'']"
      and src = "''(Source: P.A. 90-655, eff. 7-30-98.)''" and post = "[]", OF a b c d e f g h]
  then have "\<exists>r. parse_statute_page demo_statute_site ''https://ilga.gov'' ''/s/indented.html'' = Inr r
          \<and> section_number r = Some ''1. Short title.''
          \<and> source r = Some ''(Source: P.A. 90-655, eff. 7-30-98.)''
          \<and> statute_text r = ''First'' @ [nl] @ render_line (statute_page indented_body) ''Second''
          \<and> statute_text r \<noteq> []"
    by auto
  with a b c show ?thesis by blast
qed

text \<open>
  C4 as stated fails when a later line starts with \<open>(Source:\<close>: every such line
  overwrites \<open>source\<close>. On a page with two versions of a section, the text is the
  first version's and the source is the second version's.
\<close>

theorem later_source_line_overwrites:
  "stmt_lines (processed_text (get_text_lines (Elem ''body'' [] two_version_body)))
     = [''(Text of Section from P.A. 103-1)''] @ [''Sec. 1. Short title.'']
       @ [''This Act may be cited as the First Act.''] @ [''(Source: P.A. 103-1, eff. 1-1-24.)'']
       @ [''(Text of Section from P.A. 103-2)'', ''Sec. 1. Short title.'',
          ''This Act may be cited as the Second Act.'', ''(Source: P.A. 103-2, eff. 1-1-24.)'']
   \<and> parse_statute_page demo_statute_site ''https://ilga.gov'' ''/s/versions.html''
       = Inr \<lparr>section_number = Some ''1. Short title.'',
              statute_text = ''This Act may be cited as the First Act.'',
              source = Some ''(Source: P.A. 103-2, eff. 1-1-24.)'',
              amended_statute = False\<rparr>"
  by code_simp

subsection \<open>Indentation and the amendment marker\<close>

lemma prefix_within:
  assumes "prefix m (xs @ zs)" and "length m \<le> length xs"
  shows "prefix m xs"
proof -
  from assms(1) have "take (length m) (xs @ zs) = m"
    by (metis append_eq_conv_conj prefix_def)
  then have "take (length m) xs = m" using assms(2) by simp
  then show ?thesis by (metis take_is_prefix)
qed

lemma after_first_first_occurrence:
  assumes "m \<noteq> []" and "\<not> sublist m (pre @ butlast m)"
  shows "after_first m (pre @ m @ post) = Some post"
  using assms(2)
proof (induction pre)
  case Nil
  obtain c cs where m: "m = c # cs" using assms(1) by (cases m) auto
  have "after_first m (m @ post) = Some (drop (length m) (m @ post))"
    unfolding m by simp
  then show ?case by simp
next
  case (Cons c cs)
  let ?xs = "(c # cs) @ butlast m"
  have split: "(c # cs) @ m @ post = ?xs @ ([last m] @ post)"
    using assms(1) by (metis append.assoc append_butlast_last_id)
  have len: "length m \<le> length ?xs" using assms(1) by (cases m) simp_all
  have np: "\<not> prefix m ((c # cs) @ m @ post)"
  proof
    assume "prefix m ((c # cs) @ m @ post)"
    then have "prefix m (?xs @ ([last m] @ post))" by (simp only: split)
    then have "prefix m ?xs" using len by (rule prefix_within)
    then have "sublist m ?xs" by (rule prefix_imp_sublist)
    with Cons.prems show False by simp
  qed
  have ns: "\<not> sublist m (cs @ butlast m)"
    using Cons.prems by (simp add: sublist_Cons_right)
  have "after_first m ((c # cs) @ m @ post) = after_first m (cs @ m @ post)"
    using np by (simp only: append_Cons after_first.simps if_False)
  with Cons.IH [OF ns] show ?case by simp
qed

lemma processed_text_after_marker:
  assumes "t = pre @ amendment_marker @ post"
    and "\<not> sublist amendment_marker (pre @ butlast amendment_marker)"
  shows "processed_text t = post"
proof -
  have ne: "amendment_marker \<noteq> []" by (simp add: amendment_marker_def)
  have "sublist amendment_marker t" unfolding assms(1) by simp
  then show ?thesis
    using after_first_first_occurrence [OF ne assms(2), of post] assms(1)
    by (simp add: processed_text_def)
qed

lemma scan_step_lines_subset:
  "set (statute_text_lines (scan_step (\<lambda>l. l) st raw))
     \<subseteq> set (statute_text_lines st) \<union> set (filter (\<lambda>l. l \<noteq> []) [py_strip raw])"
  by (auto simp add: scan_step_def Let_def)

lemma scan_lines_subset:
  "set (statute_text_lines (scan_lines (\<lambda>l. l) ls st))
     \<subseteq> set (statute_text_lines st) \<union> set (filter (\<lambda>l. l \<noteq> []) (map py_strip ls))"
proof (induction ls arbitrary: st)
  case Nil
  then show ?case by (simp add: scan_lines_Nil)
next
  case (Cons raw ls)
  show ?case
    unfolding scan_lines_Cons
    using Cons.IH [of "scan_step (\<lambda>l. l) st raw"] scan_step_lines_subset [of st raw]
    by auto
qed

lemma leading_whitespace_run:
  "leading_whitespace sibs = concat (rev (concat (map text_of (takeWhile is_text sibs))))"
  by (induction sibs rule: leading_whitespace.induct) simp_all

lemma count_spaces_eq:
  "count_spaces w = length (filter (\<lambda>c. c = CHR '' '' \<or> c = nbsp) w)"
  by (induction w) (auto simp add: count_spaces_def nbsp_def)

lemma indent_spaces_cases:
  "(case find_string soup l of
      None \<Rightarrow> indent_spaces soup l = 0
    | Some (own, psibs) \<Rightarrow>
        indent_spaces soup l
          = length (filter (\<lambda>c. c = CHR '' '' \<or> c = nbsp)
              (concat (rev (concat (map text_of (takeWhile is_text psibs)))))))"
  by (simp add: indent_spaces_def count_spaces_eq leading_whitespace_run split: option.splits)

text \<open>The search fails exactly when no text fragment below the nodes contains the
  line.\<close>

lemma find_ctx_None_iff:
  "find_ctx line psibs earlier ns = None
     \<longleftrightarrow> (\<forall>s \<in> set (concat (map text_of (concat (map (\<lambda>c. c # descendants c) ns)))).
            \<not> sublist line s)"
  by (induction line psibs earlier ns rule: find_ctx.induct) (auto split: option.splits)

lemma find_string_None_iff:
  "find_string (Elem t as cs) line = None
     \<longleftrightarrow> (\<forall>s \<in> set (all_strings (Elem t as cs)). \<not> sublist line s)"
  by (simp add: find_ctx_None_iff all_strings_def)

text \<open>
  C2 (as amended). \<open>statute_text\<close> is the captured body lines joined by line feeds,
  the first line without indentation (the joined block is trimmed) and every other
  line prefixed with exactly \<open>indent_spaces\<close> spaces. That number is the count of
  spaces and non-breaking spaces in the concatenation of the contiguous run of raw
  text fragments that are previous siblings of the parent element of the first text
  fragment of the whole document that contains the line, walked backward and stopped
  at the first element; it is 0 when no text fragment contains the line. A captured
  line has no whitespace at either end, so the prefix is all of its leading space.
\<close>

theorem statute_text_indentation:
  assumes resp: "st (base @ path) = Response soup" and body: "find_tag ''body'' soup = Some body"
  shows "\<exists>r. parse_statute_page st base path = Inr r
    \<and> statute_text r
        = (case captured_lines (get_text_lines body) of
             [] \<Rightarrow> []
           | b # bs \<Rightarrow>
               join [nl] (b # map (\<lambda>l. replicate (indent_spaces soup l) CHR '' '' @ l) bs))
    \<and> (\<forall>l \<in> set (captured_lines (get_text_lines body)). clean l)
    \<and> (\<forall>l. case find_string soup l of
              None \<Rightarrow> indent_spaces soup l = 0
            | Some (own, psibs) \<Rightarrow>
                indent_spaces soup l
                  = length (filter (\<lambda>c. c = CHR '' '' \<or> c = nbsp)
                      (concat (rev (concat (map text_of (takeWhile is_text psibs)))))))"
proof -
  have ret: "parse_statute_page st base path = Inr (statute_of soup body)"
    using resp body by (simp add: parse_statute_page_def)
  have rl: "render_line soup = (\<lambda>l. replicate (indent_spaces soup l) CHR '' '' @ l)"
    by (rule ext) (rule render_line_eq)
  have form: "statute_text (statute_of soup body)
        = (case captured_lines (get_text_lines body) of
             [] \<Rightarrow> []
           | b # bs \<Rightarrow>
               join [nl] (b # map (\<lambda>l. replicate (indent_spaces soup l) CHR '' '' @ l) bs))"
    using statute_text_form [of soup body] by (simp only: rl)
  show ?thesis
    using ret form captured_lines_clean [of "get_text_lines body"] indent_spaces_cases [of soup]
    by blast
qed

theorem statute_text_indentation_witness:
  "demo_statute_site (''https://ilga.gov'' @ ''/s/indented.html'') = Response (statute_page indented_body)
   \<and> find_tag ''body'' (statute_page indented_body) = Some (Elem ''body'' [] indented_body)
   \<and> captured_lines (get_text_lines (Elem ''body'' [] indented_body)) = [''First'', ''Second'']
   \<and> indent_spaces (statute_page indented_body) ''Second'' = 2
   \<and> find_string (statute_page indented_body) ''Third'' = None
   \<and> render_line (statute_page indented_body) ''Third'' = ''Third''
   \<and> (\<exists>r. parse_statute_page demo_statute_site ''https://ilga.gov'' ''/s/indented.html'' = Inr r
          \<and> statute_text r = ''First'' @ [nl] @ ''  Second'')"
proof -
  have a: "demo_statute_site (''https://ilga.gov'' @ ''/s/indented.html'')
             = Response (statute_page indented_body)"
    by (simp add: demo_statute_site_def)
  have b: "find_tag ''body'' (statute_page indented_body) = Some (Elem ''body'' [] indented_body)"
    by (simp add: find_tag_def statute_page_def)
  have c: "captured_lines (get_text_lines (Elem ''body'' [] indented_body)) = [''First'', ''Second'']"
    by code_simp
  have d: "indent_spaces (statute_page indented_body) ''Second'' = 2"
    by code_simp
  have e: "find_string (statute_page indented_body) ''Third'' = None
    \<and> render_line (statute_page indented_body) ''Third'' = ''Third''"
    by code_simp
  note inst = statute_text_indentation [where st = demo_statute_site and base = "''https://ilga.gov''"
      and path = "''/s/indented.html''" and soup = "statute_page indented_body"
      and body = "Elem ''body'' [] indented_body", OF a b]
  then obtain r where r: "parse_statute_page demo_statute_site ''https://ilga.gov'' ''/s/indented.html'' = Inr r"
    and t: "statute_text r
        = (case captured_lines (get_text_lines (Elem ''body'' [] indented_body)) of
             [] \<Rightarrow> []
           | b # bs \<Rightarrow>
               join [nl] (b # map (\<lambda>l. replicate (indent_spaces (statute_page indented_body) l) CHR '' '' @ l) bs))"
    by blast
  have "statute_text r = ''First'' @ [nl] @ ''  Second''"
    unfolding t c using d by (simp add: numeral_2_eq_2)
  with a b c d e r show ?thesis by blast
qed

text \<open>
  C2 as stated fails twice on one page. The parent of \<open>First\<close> is preceded by a text
  fragment with two non-breaking spaces, yet \<open>First\<close>, the first captured line, has no
  leading space in \<open>statute_text\<close>; and \<open>Second\<close> has two leading spaces although the
  text fragment found has no previous sibling of its own.
\<close>

theorem statute_text_first_line_and_parent_siblings:
  "map_sum id statute_text
     (parse_statute_page demo_statute_site ''https://ilga.gov'' ''/s/indented.html'')
     = Inr (''First'' @ [nl] @ ''  Second'')
   \<and> indent_spaces (statute_page indented_body) ''First'' = 2
   \<and> indent_spaces (statute_page indented_body) ''Second'' = 2
   \<and> own_indent_spaces (statute_page indented_body) ''First'' = 0
   \<and> own_indent_spaces (statute_page indented_body) ''Second'' = 0"
  by code_simp

text \<open>
  C3 (as amended). \<open>amended_statute\<close> is true exactly when the flattened body text
  contains \<open>Text of Section after amendment\<close>. When it does, with \<open>post\<close> the text after
  the first occurrence, the section number, the source and the captured body lines
  are those of the loop run on \<open>post\<close> alone, every captured line is a line of \<open>post\<close>,
  and \<open>statute_text\<close> is the trimmed join of the captured lines, each indented by a
  lookup in the whole document (which is not restricted to \<open>post\<close>).
\<close>

theorem amended_statute_processing:
  assumes resp: "st (base @ path) = Response soup" and body: "find_tag ''body'' soup = Some body"
  shows "\<exists>r. parse_statute_page st base path = Inr r
    \<and> amended_statute r = sublist amendment_marker (get_text_lines body)
    \<and> (\<forall>pre post.
          get_text_lines body = pre @ amendment_marker @ post
          \<and> \<not> sublist amendment_marker (pre @ butlast amendment_marker) \<longrightarrow>
            amended_statute r
          \<and> section_number r = sec_number (scan_lines (\<lambda>l. l) (split_char nl post) init_state)
          \<and> source r = src_line (scan_lines (\<lambda>l. l) (split_char nl post) init_state)
          \<and> captured_lines (get_text_lines body)
              = statute_text_lines (scan_lines (\<lambda>l. l) (split_char nl post) init_state)
          \<and> set (captured_lines (get_text_lines body)) \<subseteq> set (stmt_lines post)
          \<and> statute_text r
              = py_strip (join [nl] (map (render_line soup) (captured_lines (get_text_lines body)))))"
proof -
  let ?t = "get_text_lines body"
  let ?r = "statute_of soup body"
  have ret: "parse_statute_page st base path = Inr ?r"
    using resp body by (simp add: parse_statute_page_def)
  have am: "amended_statute ?r = sublist amendment_marker ?t"
    by (rule statute_fields_plain)
  have st: "statute_text ?r = py_strip (join [nl] (map (render_line soup) (captured_lines ?t)))"
    by (simp add: statute_of_def Let_def captured_lines_def map_lines_def
        scan_lines_init [of "render_line soup"])
  have rest: "amended_statute ?r
      \<and> section_number ?r = sec_number (scan_lines (\<lambda>l. l) (split_char nl post) init_state)
      \<and> source ?r = src_line (scan_lines (\<lambda>l. l) (split_char nl post) init_state)
      \<and> captured_lines ?t = statute_text_lines (scan_lines (\<lambda>l. l) (split_char nl post) init_state)
      \<and> set (captured_lines ?t) \<subseteq> set (stmt_lines post)"
    if t: "?t = pre @ amendment_marker @ post"
      and first: "\<not> sublist amendment_marker (pre @ butlast amendment_marker)" for pre post
  proof -
    have pt: "processed_text ?t = post" using t first by (rule processed_text_after_marker)
    have "sublist amendment_marker ?t" unfolding t by simp
    moreover have "set (statute_text_lines (scan_lines (\<lambda>l. l) (split_char nl post) init_state))
        \<subseteq> set (stmt_lines post)"
      using scan_lines_subset [of "split_char nl post" init_state]
      by (simp add: stmt_lines_def init_state_def)
    ultimately show ?thesis
      by (simp add: statute_fields_plain pt captured_lines_def)
  qed
  show ?thesis using ret am st rest by blast
qed

theorem amended_statute_processing_witness:
  "demo_statute_site (''https://ilga.gov'' @ ''/s/amended1.html'')
     = Response (statute_page amended_body_indented)
   \<and> find_tag ''body'' (statute_page amended_body_indented)
       = Some (Elem ''body'' [] amended_body_indented)
   \<and> get_text_lines (Elem ''body'' [] amended_body_indented)
       = (''Text of Section before amendment'' @ [nl] @ ''Shared line'' @ [nl])
         @ amendment_marker
         @ ([nl] @ ''Sec. 1. Short title.'' @ [nl] @ ''First'' @ [nl] @ ''Shared line'' @ [nl]
            @ ''(Source: P.A. 99-1.)'')
   \<and> \<not> sublist amendment_marker
         ((''Text of Section before amendment'' @ [nl] @ ''Shared line'' @ [nl])
          @ butlast amendment_marker)
   \<and> (\<exists>r. parse_statute_page demo_statute_site ''https://ilga.gov'' ''/s/amended1.html'' = Inr r
          \<and> amended_statute r
          \<and> section_number r = Some ''1. Short title.''
          \<and> source r = Some ''(Source: P.A. 99-1.)''
          \<and> captured_lines (get_text_lines (Elem ''body'' [] amended_body_indented))
              = [''First'', ''Shared line''])"
proof -
  let ?pre = "''Text of Section before amendment'' @ [nl] @ ''Shared line'' @ [nl]"
  let ?post = "[nl] @ ''Sec. 1. Short title.'' @ [nl] @ ''First'' @ [nl] @ ''Shared line'' @ [nl]
            @ ''(Source: P.A. 99-1.)''"
  let ?body = "Elem ''body'' [] amended_body_indented"
  have a: "demo_statute_site (''https://ilga.gov'' @ ''/s/amended1.html'')
     = Response (statute_page amended_body_indented)"
    by (simp add: demo_statute_site_def)
  have b: "find_tag ''body'' (statute_page amended_body_indented) = Some ?body"
    by (simp add: find_tag_def statute_page_def)
  have c: "get_text_lines ?body = ?pre @ amendment_marker @ ?post"
    by code_simp
  have d: "\<not> sublist amendment_marker (?pre @ butlast amendment_marker)"
    by code_simp
  have e: "sec_number (scan_lines (\<lambda>l. l) (split_char nl ?post) init_state) = Some ''1. Short title.''"
    by code_simp
  have f: "src_line (scan_lines (\<lambda>l. l) (split_char nl ?post) init_state) = Some ''(Source: P.A. 99-1.)''"
    by code_simp
  have g: "statute_text_lines (scan_lines (\<lambda>l. l) (split_char nl ?post) init_state)
             = [''First'', ''Shared line'']"
    by code_simp
  note inst = amended_statute_processing [where st = demo_statute_site
      and base = "''https://ilga.gov''" and path = "''/s/amended1.html''"
      and soup = "statute_page amended_body_indented" and body = ?body, OF a b]
  then obtain r where r: "parse_statute_page demo_statute_site ''https://ilga.gov'' ''/s/amended1.html'' = Inr r"
    and rest: "\<forall>pre post.
          get_text_lines ?body = pre @ amendment_marker @ post
          \<and> \<not> sublist amendment_marker (pre @ butlast amendment_marker) \<longrightarrow>
            amended_statute r
          \<and> section_number r = sec_number (scan_lines (\<lambda>l. l) (split_char nl post) init_state)
          \<and> source r = src_line (scan_lines (\<lambda>l. l) (split_char nl post) init_state)
          \<and> captured_lines (get_text_lines ?body)
              = statute_text_lines (scan_lines (\<lambda>l. l) (split_char nl post) init_state)
          \<and> set (captured_lines (get_text_lines ?body)) \<subseteq> set (stmt_lines post)
          \<and> statute_text r
              = py_strip (join [nl] (map (render_line (statute_page amended_body_indented))
                  (captured_lines (get_text_lines ?body))))"
    by blast
  from rest [rule_format, of ?pre ?post] c d
  have "amended_statute r
      \<and> section_number r = sec_number (scan_lines (\<lambda>l. l) (split_char nl ?post) init_state)
      \<and> source r = src_line (scan_lines (\<lambda>l. l) (split_char nl ?post) init_state)
      \<and> captured_lines (get_text_lines ?body)
          = statute_text_lines (scan_lines (\<lambda>l. l) (split_char nl ?post) init_state)"
    by blast
  with e f g have "amended_statute r \<and> section_number r = Some ''1. Short title.''
      \<and> source r = Some ''(Source: P.A. 99-1.)''
      \<and> captured_lines (get_text_lines ?body) = [''First'', ''Shared line'']"
    by simp
  with a b c d r show ?thesis by blast
qed

text \<open>
  C3 as stated fails for the indentation lookup: two pages with the same text after
  the marker give different \<open>statute_text\<close>, because on the first the line
  \<open>Shared line\<close> is found in a text fragment before the marker and takes its
  indentation there.
\<close>

theorem indentation_lookup_reads_before_marker:
  "processed_text (get_text_lines (Elem ''body'' [] amended_body_indented))
     = processed_text (get_text_lines (Elem ''body'' [] amended_body_plain))
   \<and> map_sum id statute_text
       (parse_statute_page demo_statute_site ''https://ilga.gov'' ''/s/amended1.html'')
       = Inr (''First'' @ [nl] @ ''  Shared line'')
   \<and> map_sum id statute_text
       (parse_statute_page demo_statute_site ''https://ilga.gov'' ''/s/amended2.html'')
       = Inr (''First'' @ [nl] @ ''Shared line'')"
  by code_simp

end
